theory Spec2Isabelle
  imports Complex_Main
begin

section \<open>Values, frames and errors\<close>

text \<open>
  A symbol is identified by its position in the frame.  Vertex and edge accessors compare by
  their global address; an edge accessor also gives access to its two endpoints and its type.
\<close>

type_synonym symbol = nat

datatype vertex_accessor = VertexAccessor (v_address: nat)

datatype edge_accessor =
  EdgeAccessor (e_address: nat) (e_from: vertex_accessor) (e_to: vertex_accessor) (e_type: nat)

text \<open>\<^verbatim>\<open>TypedValue\<close>: the tagged union of run-time values, and \<^verbatim>\<open>TypedValue::Type\<close>.\<close>

datatype typed_value =
    Null
  | BoolV bool
  | IntV int
  | DoubleV real
  | StringV string
  | ListV "typed_value list"
  | MapV "(string \<times> typed_value) list"
  | VertexV vertex_accessor
  | EdgeV edge_accessor
  | PathV vertex_accessor "(edge_accessor \<times> vertex_accessor) list"

datatype value_type =
  TNull | TString | TBool | TInt | TDouble | TList | TMap | TVertex | TEdge | TPath

fun type_of :: "typed_value \<Rightarrow> value_type" where
  "type_of Null = TNull"
| "type_of (BoolV _) = TBool"
| "type_of (IntV _) = TInt"
| "type_of (DoubleV _) = TDouble"
| "type_of (StringV _) = TString"
| "type_of (ListV _) = TList"
| "type_of (MapV _) = TMap"
| "type_of (VertexV _) = TVertex"
| "type_of (EdgeV _) = TEdge"
| "type_of (PathV _ _) = TPath"

definition IsNull :: "typed_value \<Rightarrow> bool" where
  "IsNull v = (type_of v = TNull)"

text \<open>
  The frame is the vector of value slots, indexed by symbol position.  The exceptions of the
  operators are values; a \<^verbatim>\<open>QueryRuntimeException\<close> carries its message.
\<close>

type_synonym frame = "typed_value list"

datatype query_error =
    QueryRuntimeException string
  | TypedValueException
  | HintedAbortError
  | SerializationError
  | LockTimeoutException
  | ReconstructionException

text \<open>
  An expression is evaluated over the frame; evaluation may raise.  The result of a
  \<^verbatim>\<open>Pull\<close> is either an exception or the returned flag together with the frame
  (mutated in place by the source) and the cursor's new state.
\<close>

type_synonym expression = "frame \<Rightarrow> query_error + typed_value"

type_synonym 'c pull_result = "query_error + (bool \<times> frame \<times> 'c)"

text \<open>A literal: the expression that evaluates to the same value over every frame.\<close>

definition Literal :: "typed_value \<Rightarrow> expression" where
  "Literal v frame = Inr v"

text \<open>
  The input cursor of an operator is represented by the rows its successive successful pulls
  leave on the frame; once they are used up it reports exhaustion.
\<close>

type_synonym input_cursor = "frame list"

fun input_Pull :: "input_cursor \<Rightarrow> frame \<Rightarrow> bool \<times> frame \<times> input_cursor" where
  "input_Pull [] frame = (False, frame, [])"
| "input_Pull (row # rest) frame = (True, row, rest)"

section \<open>Once\<close>

text \<open>\<^verbatim>\<open>Once::OnceCursor\<close>: the only state is the flag \<^verbatim>\<open>did_pull_\<close>.\<close>

record OnceCursor =
  did_pull :: bool



definition OnceCursor_Reset :: "OnceCursor \<Rightarrow> OnceCursor" where
  "OnceCursor_Reset c = c\<lparr> did_pull := False \<rparr>"

section \<open>Skip and Limit\<close>

text \<open>
  \<^verbatim>\<open>Skip::SkipCursor\<close>.  \<^verbatim>\<open>to_skip_\<close> starts at \<open>-1\<close> (not yet known) and
  \<^verbatim>\<open>skipped_\<close> at \<open>0\<close>.  The field \<open>skip_evaluations\<close> is not in the source: it counts
  how often the cursor has evaluated its expression.
\<close>

record SkipCursor =
  skip_expression :: expression
  skip_input_cursor :: input_cursor
  skip_to_skip :: int
  skip_skipped :: int
  skip_evaluations :: nat

definition MakeSkipCursor :: "expression \<Rightarrow> input_cursor \<Rightarrow> SkipCursor" where
  "MakeSkipCursor e inp =
     \<lparr> skip_expression = e, skip_input_cursor = inp, skip_to_skip = - 1, skip_skipped = 0,
       skip_evaluations = 0 \<rparr>"

text \<open>The body of the \<^verbatim>\<open>if (to_skip_ == -1)\<close> block, run after a successful input pull.\<close>

definition Skip_evaluate :: "SkipCursor \<Rightarrow> frame \<Rightarrow> query_error + SkipCursor" where
  "Skip_evaluate c frame =
     (if skip_to_skip c = - 1 then
        (case skip_expression c frame of
           Inl e \<Rightarrow> Inl e
         | Inr to_skip \<Rightarrow>
             if type_of to_skip \<noteq> TInt then
               Inl (QueryRuntimeException ''Result of SKIP expression must be an int'')
             else (case to_skip of
                 IntV n \<Rightarrow>
                   if n < 0 then
                     Inl (QueryRuntimeException
                            ''Result of SKIP expression must be greater or equal to zero'')
                   else Inr (c\<lparr> skip_to_skip := n,
                                skip_evaluations := Suc (skip_evaluations c) \<rparr>)
               | _ \<Rightarrow> Inl TypedValueException))
      else Inr c)"

function SkipCursor_Pull :: "SkipCursor \<Rightarrow> frame \<Rightarrow> SkipCursor pull_result" where
  "SkipCursor_Pull c frame =
     (case skip_input_cursor c of
        [] \<Rightarrow> Inr (False, frame, c)
      | row # rest \<Rightarrow>
          (case Skip_evaluate (c\<lparr> skip_input_cursor := rest \<rparr>) row of
             Inl e \<Rightarrow> Inl e
           | Inr c1 \<Rightarrow>
               if skip_skipped c1 < skip_to_skip c1
               then SkipCursor_Pull (c1\<lparr> skip_skipped := skip_skipped c1 + 1 \<rparr>) row
               else Inr (True, row, c1\<lparr> skip_skipped := skip_skipped c1 + 1 \<rparr>)))"
  by pat_completeness auto

lemma Skip_evaluate_input:
  "Skip_evaluate c frame = Inr c1 \<Longrightarrow> skip_input_cursor c1 = skip_input_cursor c"
  by (auto simp: Skip_evaluate_def split: if_splits sum.splits typed_value.splits)

termination SkipCursor_Pull
  by (relation "measure (\<lambda>(c, frame). length (skip_input_cursor c))")
     (auto dest: Skip_evaluate_input)

declare SkipCursor_Pull.simps [simp del]

definition SkipCursor_Reset :: "SkipCursor \<Rightarrow> input_cursor \<Rightarrow> SkipCursor" where
  "SkipCursor_Reset c inp =
     c\<lparr> skip_input_cursor := inp, skip_to_skip := - 1, skip_skipped := 0 \<rparr>"

text \<open>
  \<^verbatim>\<open>Limit::LimitCursor\<close>.  \<^verbatim>\<open>limit_\<close> starts at \<open>-1\<close> and \<^verbatim>\<open>pulled_\<close> at \<open>0\<close>;
  \<open>limit_evaluations\<close> counts the evaluations of the expression.
\<close>

record LimitCursor =
  limit_expression :: expression
  limit_input_cursor :: input_cursor
  limit_limit :: int
  limit_pulled :: int
  limit_evaluations :: nat

definition MakeLimitCursor :: "expression \<Rightarrow> input_cursor \<Rightarrow> LimitCursor" where
  "MakeLimitCursor e inp =
     \<lparr> limit_expression = e, limit_input_cursor = inp, limit_limit = - 1, limit_pulled = 0,
       limit_evaluations = 0 \<rparr>"

definition Limit_evaluate :: "LimitCursor \<Rightarrow> frame \<Rightarrow> query_error + LimitCursor" where
  "Limit_evaluate c frame =
     (if limit_limit c = - 1 then
        (case limit_expression c frame of
           Inl e \<Rightarrow> Inl e
         | Inr limit \<Rightarrow>
             if type_of limit \<noteq> TInt then
               Inl (QueryRuntimeException ''Result of LIMIT expression must be an int'')
             else (case limit of
                 IntV n \<Rightarrow>
                   if n < 0 then
                     Inl (QueryRuntimeException
                            ''Result of LIMIT expression must be greater or equal to zero'')
                   else Inr (c\<lparr> limit_limit := n,
                                limit_evaluations := Suc (limit_evaluations c) \<rparr>)
               | _ \<Rightarrow> Inl TypedValueException))
      else Inr c)"

definition LimitCursor_Pull :: "LimitCursor \<Rightarrow> frame \<Rightarrow> LimitCursor pull_result" where
  "LimitCursor_Pull c frame =
     (case Limit_evaluate c frame of
        Inl e \<Rightarrow> Inl e
      | Inr c1 \<Rightarrow>
          (let c2 = c1\<lparr> limit_pulled := limit_pulled c1 + 1 \<rparr> in
           if limit_pulled c1 \<ge> limit_limit c1 then Inr (False, frame, c2)
           else (case input_Pull (limit_input_cursor c2) frame of
                   (b, frame', rest) \<Rightarrow> Inr (b, frame', c2\<lparr> limit_input_cursor := rest \<rparr>))))"


section \<open>Aggregate\<close>

text \<open>
  The operators of \<^verbatim>\<open>TypedValue\<close> that \<^verbatim>\<open>Aggregate\<close> and \<^verbatim>\<open>Distinct\<close> use are
  declared outside the operator source, so they are parameters of the model: the comparisons
  \<^verbatim>\<open><\<close> and \<^verbatim>\<open>>\<close>, the sum, the division by \<^verbatim>\<open>(double)count\<close>, and
  \<^verbatim>\<open>TypedValue::BoolEqual\<close>.  The hash function of the map \<^verbatim>\<open>aggregation_\<close> is declared
  with the cursor, outside the operator source as well; it is the parameter \<open>tv_hash\<close>.
\<close>

record typed_value_ops =
  tv_less :: "typed_value \<Rightarrow> typed_value \<Rightarrow> query_error + typed_value"
  tv_greater :: "typed_value \<Rightarrow> typed_value \<Rightarrow> query_error + typed_value"
  tv_plus :: "typed_value \<Rightarrow> typed_value \<Rightarrow> query_error + typed_value"
  tv_div_count :: "typed_value \<Rightarrow> int \<Rightarrow> query_error + typed_value"
  BoolEqual :: "typed_value \<Rightarrow> typed_value \<Rightarrow> bool"
  tv_hash :: "typed_value list \<Rightarrow> nat"

text \<open>\<^verbatim>\<open>TypedValueVectorEqual\<close>: \<^verbatim>\<open>std::equal\<close> over the left vector with \<^verbatim>\<open>BoolEqual\<close>.\<close>

fun TypedValueVectorEqual ::
  "typed_value_ops \<Rightarrow> typed_value list \<Rightarrow> typed_value list \<Rightarrow> bool" where
  "TypedValueVectorEqual ops [] right = True"
| "TypedValueVectorEqual ops (l # left) [] = False"
| "TypedValueVectorEqual ops (l # left) (r # right) =
     (BoolEqual ops l r \<and> TypedValueVectorEqual ops left right)"

datatype aggregation_op =
  Op_COUNT | Op_MIN | Op_MAX | Op_SUM | Op_AVG | Op_COLLECT_LIST | Op_COLLECT_MAP

text \<open>
  \<^verbatim>\<open>Aggregate::Element\<close>: the input expression (absent for \<^verbatim>\<open>COUNT(*)\<close>), the key
  expression of \<^verbatim>\<open>COLLECT_MAP\<close>, the operation and the output symbol.
\<close>

record Element =
  elem_value :: "expression option"
  elem_key :: "expression option"
  elem_op :: aggregation_op
  elem_output_sym :: symbol

record Aggregate =
  aggregations :: "Element list"
  group_by :: "expression list"
  remember :: "symbol list"

record AggregationValue =
  agg_values :: "typed_value list"
  agg_counts :: "int list"
  agg_remember :: "typed_value list"

text \<open>
  The cursor.  \<^verbatim>\<open>aggregation_\<close> is a \<^verbatim>\<open>std::unordered_map\<close> from group-by values to
  aggregation values.  It is kept as an association list in the order in which the map is
  iterated, looked up with \<^verbatim>\<open>TypedValueVectorEqual\<close>; \<^verbatim>\<open>aggregation_it_\<close> is the index of
  the next entry.  The order of iteration of the map is not the order of insertion: it is decided
  by the hash function, so entries are kept ordered by \<open>tv_hash\<close> of their keys.  Every order of
  entries with different keys is the order of some hash function.
\<close>

record AggregateCursor =
  agg_self :: Aggregate
  agg_input_cursor :: input_cursor
  agg_aggregation :: "(typed_value list \<times> AggregationValue) list"
  agg_aggregation_it :: nat
  agg_pulled_all_input :: bool

definition MakeAggregateCursor :: "Aggregate \<Rightarrow> input_cursor \<Rightarrow> AggregateCursor" where
  "MakeAggregateCursor self inp =
     \<lparr> agg_self = self, agg_input_cursor = inp, agg_aggregation = [], agg_aggregation_it = 0,
       agg_pulled_all_input = False \<rparr>"

fun DefaultAggregationOpValue :: "Element \<Rightarrow> typed_value" where
  "DefaultAggregationOpValue element =
     (case elem_op element of
        Op_COUNT \<Rightarrow> IntV 0
      | Op_SUM \<Rightarrow> Null
      | Op_MIN \<Rightarrow> Null
      | Op_MAX \<Rightarrow> Null
      | Op_AVG \<Rightarrow> Null
      | Op_COLLECT_LIST \<Rightarrow> ListV []
      | Op_COLLECT_MAP \<Rightarrow> MapV [])"

definition EnsureOkForMinMax :: "typed_value \<Rightarrow> query_error + unit" where
  "EnsureOkForMinMax v =
     (if type_of v \<in> {TBool, TInt, TDouble, TString} then Inr ()
      else Inl (QueryRuntimeException
        ''Only Bool, Int, Double and String values are allowed in MIN and MAX aggregations''))"

definition EnsureOkForAvgSum :: "typed_value \<Rightarrow> query_error + unit" where
  "EnsureOkForAvgSum v =
     (if type_of v \<in> {TInt, TDouble} then Inr ()
      else Inl (QueryRuntimeException
        ''Only numeric values allowed in SUM and AVG aggregations''))"

text \<open>Evaluating a list of expressions in order; the first exception ends the evaluation.\<close>

fun evaluate_all :: "expression list \<Rightarrow> frame \<Rightarrow> query_error + typed_value list" where
  "evaluate_all [] frame = Inr []"
| "evaluate_all (e # es) frame =
     (case e frame of
        Inl err \<Rightarrow> Inl err
      | Inr v \<Rightarrow> (case evaluate_all es frame of Inl err \<Rightarrow> Inl err | Inr vs \<Rightarrow> Inr (v # vs)))"

text \<open>\<^verbatim>\<open>push_back\<close> on a list value and \<^verbatim>\<open>emplace\<close> on a map value (which keeps an existing key).\<close>

definition list_push_back :: "typed_value \<Rightarrow> typed_value \<Rightarrow> query_error + typed_value" where
  "list_push_back value input_value =
     (case value of ListV xs \<Rightarrow> Inr (ListV (xs @ [input_value])) | _ \<Rightarrow> Inl TypedValueException)"

definition map_emplace ::
  "typed_value \<Rightarrow> typed_value \<Rightarrow> typed_value \<Rightarrow> query_error + typed_value" where
  "map_emplace value key input_value =
     (if type_of key \<noteq> TString then Inl (QueryRuntimeException ''Map key must be a string'')
      else (case (value, key) of
          (MapV m, StringV k) \<Rightarrow>
            Inr (MapV (if k \<in> fst ` set m then m else m @ [(k, input_value)]))
        | _ \<Rightarrow> Inl TypedValueException))"

definition collect_map ::
  "Element \<Rightarrow> frame \<Rightarrow> typed_value \<Rightarrow> typed_value \<Rightarrow> query_error + typed_value" where
  "collect_map elem frame value input_value =
     (case elem_key elem of
        None \<Rightarrow> Inl TypedValueException
      | Some key_expr \<Rightarrow>
          (case key_expr frame of
             Inl e \<Rightarrow> Inl e
           | Inr key \<Rightarrow> map_emplace value key input_value))"

text \<open>
  One round of the loop of \<^verbatim>\<open>AggregateCursor::Update\<close>: the new count and value of one
  aggregation element.
\<close>

definition Update_first ::
  "Element \<Rightarrow> frame \<Rightarrow> typed_value \<Rightarrow> typed_value \<Rightarrow> query_error + typed_value" where
  "Update_first elem frame value input_value =
     (case elem_op elem of
        Op_MIN \<Rightarrow> (case EnsureOkForMinMax input_value of Inl e \<Rightarrow> Inl e | Inr _ \<Rightarrow> Inr input_value)
      | Op_MAX \<Rightarrow> (case EnsureOkForMinMax input_value of Inl e \<Rightarrow> Inl e | Inr _ \<Rightarrow> Inr input_value)
      | Op_SUM \<Rightarrow> (case EnsureOkForAvgSum input_value of Inl e \<Rightarrow> Inl e | Inr _ \<Rightarrow> Inr input_value)
      | Op_AVG \<Rightarrow> (case EnsureOkForAvgSum input_value of Inl e \<Rightarrow> Inl e | Inr _ \<Rightarrow> Inr input_value)
      | Op_COUNT \<Rightarrow> Inr (IntV 1)
      | Op_COLLECT_LIST \<Rightarrow> list_push_back value input_value
      | Op_COLLECT_MAP \<Rightarrow> collect_map elem frame value input_value)"

definition keep_if ::
  "(query_error + typed_value) \<Rightarrow> string \<Rightarrow> typed_value \<Rightarrow> typed_value \<Rightarrow>
     query_error + typed_value" where
  "keep_if comparison_result what value input_value =
     (case comparison_result of
        Inl TypedValueException \<Rightarrow> Inl (QueryRuntimeException what)
      | Inl e \<Rightarrow> Inl e
      | Inr (BoolV b) \<Rightarrow> Inr (if b then input_value else value)
      | Inr _ \<Rightarrow> Inl (QueryRuntimeException what))"

definition Update_next ::
  "typed_value_ops \<Rightarrow> Element \<Rightarrow> frame \<Rightarrow> int \<Rightarrow> typed_value \<Rightarrow> typed_value \<Rightarrow>
     query_error + typed_value" where
  "Update_next ops elem frame count value input_value =
     (case elem_op elem of
        Op_COUNT \<Rightarrow> Inr (IntV count)
      | Op_MIN \<Rightarrow>
          (case EnsureOkForMinMax input_value of
             Inl e \<Rightarrow> Inl e
           | Inr _ \<Rightarrow> keep_if (tv_less ops input_value value) ''Unable to get MIN'' value input_value)
      | Op_MAX \<Rightarrow>
          (case EnsureOkForMinMax input_value of
             Inl e \<Rightarrow> Inl e
           | Inr _ \<Rightarrow>
               keep_if (tv_greater ops input_value value) ''Unable to get MAX'' value input_value)
      | Op_AVG \<Rightarrow>
          (case EnsureOkForAvgSum input_value of
             Inl e \<Rightarrow> Inl e
           | Inr _ \<Rightarrow> tv_plus ops value input_value)
      | Op_SUM \<Rightarrow>
          (case EnsureOkForAvgSum input_value of
             Inl e \<Rightarrow> Inl e
           | Inr _ \<Rightarrow> tv_plus ops value input_value)
      | Op_COLLECT_LIST \<Rightarrow> list_push_back value input_value
      | Op_COLLECT_MAP \<Rightarrow> collect_map elem frame value input_value)"

definition Update_element ::
  "typed_value_ops \<Rightarrow> frame \<Rightarrow> Element \<Rightarrow> int \<times> typed_value \<Rightarrow>
     query_error + (int \<times> typed_value)" where
  "Update_element ops frame elem cv =
     (case cv of (count, value) \<Rightarrow>
       (case elem_value elem of
          None \<Rightarrow> Inr (count + 1, IntV (count + 1))
        | Some input_expr \<Rightarrow>
            (case input_expr frame of
               Inl e \<Rightarrow> Inl e
             | Inr input_value \<Rightarrow>
                 if IsNull input_value then Inr (count, value)
                 else if count + 1 = 1 then
                   (case Update_first elem frame value input_value of
                      Inl e \<Rightarrow> Inl e
                    | Inr v \<Rightarrow> Inr (count + 1, v))
                 else
                   (case Update_next ops elem frame (count + 1) value input_value of
                      Inl e \<Rightarrow> Inl e
                    | Inr v \<Rightarrow> Inr (count + 1, v)))))"

text \<open>The loop of \<^verbatim>\<open>Update\<close> over counts, values and elements at the same time.\<close>

fun Update_loop ::
  "typed_value_ops \<Rightarrow> frame \<Rightarrow> Element list \<Rightarrow> (int \<times> typed_value) list \<Rightarrow>
     query_error + (int \<times> typed_value) list" where
  "Update_loop ops frame (elem # elems) (cv # cvs) =
     (case Update_element ops frame elem cv of
        Inl e \<Rightarrow> Inl e
      | Inr cv' \<Rightarrow>
          (case Update_loop ops frame elems cvs of
             Inl e \<Rightarrow> Inl e
           | Inr cvs' \<Rightarrow> Inr (cv' # cvs')))"
| "Update_loop ops frame _ _ = Inr []"

definition Update ::
  "typed_value_ops \<Rightarrow> Aggregate \<Rightarrow> frame \<Rightarrow> AggregationValue \<Rightarrow>
     query_error + AggregationValue" where
  "Update ops self frame agg_value =
     (case Update_loop ops frame (aggregations self)
             (zip (agg_counts agg_value) (agg_values agg_value)) of
        Inl e \<Rightarrow> Inl e
      | Inr cvs \<Rightarrow> Inr (agg_value\<lparr> agg_counts := map fst cvs, agg_values := map snd cvs \<rparr>))"

definition EnsureInitialized :: "Aggregate \<Rightarrow> frame \<Rightarrow> AggregationValue \<Rightarrow> AggregationValue" where
  "EnsureInitialized self frame agg_value =
     (if length (agg_values agg_value) > 0 then agg_value
      else agg_value\<lparr>
        agg_values := agg_values agg_value @ map DefaultAggregationOpValue (aggregations self),
        agg_counts := take (length (aggregations self)) (agg_counts agg_value) @
          replicate (length (aggregations self) - length (agg_counts agg_value)) 0,
        agg_remember := agg_remember agg_value @ map (\<lambda>s. frame ! s) (remember self) \<rparr>)"

text \<open>
  \<^verbatim>\<open>aggregation_[group_by]\<close>: the entry of the key, and the map with that entry replaced
  (or added when the key is new).
\<close>

fun aggregation_find ::
  "typed_value_ops \<Rightarrow> (typed_value list \<times> AggregationValue) list \<Rightarrow> typed_value list \<Rightarrow>
     AggregationValue" where
  "aggregation_find ops [] key =
     \<lparr> agg_values = [], agg_counts = [], agg_remember = [] \<rparr>"
| "aggregation_find ops ((k, v) # rest) key =
     (if TypedValueVectorEqual ops k key then v else aggregation_find ops rest key)"

fun aggregation_replace ::
  "typed_value_ops \<Rightarrow> (typed_value list \<times> AggregationValue) list \<Rightarrow> typed_value list \<Rightarrow>
     AggregationValue \<Rightarrow> (typed_value list \<times> AggregationValue) list" where
  "aggregation_replace ops [] key v' = []"
| "aggregation_replace ops ((k, v) # rest) key v' =
     (if TypedValueVectorEqual ops k key then (k, v') # rest
      else (k, v) # aggregation_replace ops rest key v')"

fun aggregation_insert ::
  "typed_value_ops \<Rightarrow> (typed_value list \<times> AggregationValue) list \<Rightarrow> typed_value list \<Rightarrow>
     AggregationValue \<Rightarrow> (typed_value list \<times> AggregationValue) list" where
  "aggregation_insert ops [] key v' = [(key, v')]"
| "aggregation_insert ops ((k, v) # rest) key v' =
     (if tv_hash ops key < tv_hash ops k then (key, v') # (k, v) # rest
      else (k, v) # aggregation_insert ops rest key v')"

definition aggregation_store ::
  "typed_value_ops \<Rightarrow> (typed_value list \<times> AggregationValue) list \<Rightarrow> typed_value list \<Rightarrow>
     AggregationValue \<Rightarrow> (typed_value list \<times> AggregationValue) list" where
  "aggregation_store ops m key v' =
     (if list_ex (\<lambda>(k, v). TypedValueVectorEqual ops k key) m
      then aggregation_replace ops m key v'
      else aggregation_insert ops m key v')"

definition ProcessOne ::
  "typed_value_ops \<Rightarrow> AggregateCursor \<Rightarrow> frame \<Rightarrow> query_error + AggregateCursor" where
  "ProcessOne ops c frame =
     (case evaluate_all (group_by (agg_self c)) frame of
        Inl e \<Rightarrow> Inl e
      | Inr key \<Rightarrow>
          (let agg_value =
                 EnsureInitialized (agg_self c) frame (aggregation_find ops (agg_aggregation c) key)
           in case Update ops (agg_self c) frame agg_value of
                Inl e \<Rightarrow> Inl e
              | Inr agg_value' \<Rightarrow>
                  Inr (c\<lparr> agg_aggregation :=
                           aggregation_store ops (agg_aggregation c) key agg_value' \<rparr>)))"

text \<open>The first loop of \<^verbatim>\<open>ProcessAll\<close>: \<^verbatim>\<open>ProcessOne\<close> for every row of the input.\<close>

function ProcessAll_input ::
  "typed_value_ops \<Rightarrow> AggregateCursor \<Rightarrow> frame \<Rightarrow> query_error + (frame \<times> AggregateCursor)" where
  "ProcessAll_input ops c frame =
     (case agg_input_cursor c of
        [] \<Rightarrow> Inr (frame, c)
      | row # rest \<Rightarrow>
          (case ProcessOne ops (c\<lparr> agg_input_cursor := rest \<rparr>) row of
             Inl e \<Rightarrow> Inl e
           | Inr c1 \<Rightarrow> ProcessAll_input ops c1 row))"
  by pat_completeness auto

lemma ProcessOne_input:
  "ProcessOne ops c frame = Inr c1 \<Longrightarrow> agg_input_cursor c1 = agg_input_cursor c"
  by (auto simp: ProcessOne_def Let_def split: sum.splits)

termination ProcessAll_input
  by (relation "measure (\<lambda>(ops, c, frame). length (agg_input_cursor c))")
     (auto dest: ProcessOne_input)

declare ProcessAll_input.simps [simp del]

text \<open>The second loop of \<^verbatim>\<open>ProcessAll\<close>: the averages, so far only summed, are divided.\<close>

fun average_values ::
  "typed_value_ops \<Rightarrow> Element list \<Rightarrow> int list \<Rightarrow> typed_value list \<Rightarrow>
     query_error + typed_value list" where
  "average_values ops (elem # elems) (count # counts) (value # vals) =
     (case (if elem_op elem = Op_AVG \<and> count > 0 then tv_div_count ops value count else Inr value) of
        Inl e \<Rightarrow> Inl e
      | Inr v \<Rightarrow>
          (case average_values ops elems counts vals of
             Inl e \<Rightarrow> Inl e
           | Inr vs \<Rightarrow> Inr (v # vs)))"
| "average_values ops _ _ vals = Inr vals"

fun average_all ::
  "typed_value_ops \<Rightarrow> Element list \<Rightarrow> (typed_value list \<times> AggregationValue) list \<Rightarrow>
     query_error + (typed_value list \<times> AggregationValue) list" where
  "average_all ops elems [] = Inr []"
| "average_all ops elems ((k, v) # rest) =
     (case average_values ops elems (agg_counts v) (agg_values v) of
        Inl e \<Rightarrow> Inl e
      | Inr vs \<Rightarrow>
          (case average_all ops elems rest of
             Inl e \<Rightarrow> Inl e
           | Inr rest' \<Rightarrow> Inr ((k, v\<lparr> agg_values := vs \<rparr>) # rest')))"

definition ProcessAll ::
  "typed_value_ops \<Rightarrow> AggregateCursor \<Rightarrow> frame \<Rightarrow> query_error + (frame \<times> AggregateCursor)" where
  "ProcessAll ops c frame =
     (case ProcessAll_input ops c frame of
        Inl e \<Rightarrow> Inl e
      | Inr (frame1, c1) \<Rightarrow>
          (case average_all ops (aggregations (agg_self c1)) (agg_aggregation c1) of
             Inl e \<Rightarrow> Inl e
           | Inr m \<Rightarrow> Inr (frame1, c1\<lparr> agg_aggregation := m \<rparr>)))"

text \<open>Writing a list of values to the slots of a list of symbols, as the \<^verbatim>\<open>for\<close> loops do.\<close>

fun place_values :: "symbol list \<Rightarrow> typed_value list \<Rightarrow> frame \<Rightarrow> frame" where
  "place_values (s # syms) (v # vs) frame = place_values syms vs (frame[s := v])"
| "place_values _ _ frame = frame"

definition AggregateCursor_Pull_next :: "AggregateCursor \<Rightarrow> frame \<Rightarrow> AggregateCursor pull_result" where
  "AggregateCursor_Pull_next c frame =
     (if agg_aggregation_it c \<ge> length (agg_aggregation c) then Inr (False, frame, c)
      else
        (let entry = snd (agg_aggregation c ! agg_aggregation_it c);
             frame1 = place_values (map elem_output_sym (aggregations (agg_self c)))
                        (agg_values entry) frame;
             frame2 = place_values (remember (agg_self c)) (agg_remember entry) frame1
         in Inr (True, frame2, c\<lparr> agg_aggregation_it := agg_aggregation_it c + 1 \<rparr>)))"

definition AggregateCursor_Pull ::
  "typed_value_ops \<Rightarrow> AggregateCursor \<Rightarrow> frame \<Rightarrow> AggregateCursor pull_result" where
  "AggregateCursor_Pull ops c frame =
     (if \<not> agg_pulled_all_input c then
        (case ProcessAll ops c frame of
           Inl e \<Rightarrow> Inl e
         | Inr (frame1, c1) \<Rightarrow>
             (let c2 = c1\<lparr> agg_pulled_all_input := True, agg_aggregation_it := 0 \<rparr> in
              if agg_aggregation c2 = [] \<and> group_by (agg_self c2) = [] then
                (let frame2 = place_values (map elem_output_sym (aggregations (agg_self c2)))
                                (map DefaultAggregationOpValue (aggregations (agg_self c2))) frame1;
                     frame3 = place_values (remember (agg_self c2))
                                (map (\<lambda>s. Null) (remember (agg_self c2))) frame2
                 in Inr (True, frame3, c2))
              else AggregateCursor_Pull_next c2 frame1))
      else AggregateCursor_Pull_next c frame)"

text \<open>
  An instance of the operators for running the model on integer inputs: comparison and sum of
  integers, the sum of integers divided by the count as a double, equality of values, and a hash
  that reads the first value of a key.
\<close>

definition int_ops :: typed_value_ops where
  "int_ops =
     \<lparr> tv_less = (\<lambda>a b. case (a, b) of (IntV x, IntV y) \<Rightarrow> Inr (BoolV (x < y))
                                      | _ \<Rightarrow> Inl TypedValueException),
       tv_greater = (\<lambda>a b. case (a, b) of (IntV x, IntV y) \<Rightarrow> Inr (BoolV (x > y))
                                         | _ \<Rightarrow> Inl TypedValueException),
       tv_plus = (\<lambda>a b. case (a, b) of (IntV x, IntV y) \<Rightarrow> Inr (IntV (x + y))
                                      | _ \<Rightarrow> Inl TypedValueException),
       tv_div_count = (\<lambda>a n. case a of IntV x \<Rightarrow> Inr (DoubleV (real_of_int x / real_of_int n))
                                      | DoubleV x \<Rightarrow> Inr (DoubleV (x / real_of_int n))
                                      | _ \<Rightarrow> Inl TypedValueException),
       BoolEqual = (\<lambda>a b. a = b),
       tv_hash = (\<lambda>key. case key of IntV x # others \<Rightarrow> nat (x mod 7) | _ \<Rightarrow> 0) \<rparr>"

section \<open>Delete\<close>

text \<open>
  The graph accessor is outside the operator source.  For \<^verbatim>\<open>Delete\<close> it is represented
  by the calls the cursor makes on it, in order; whether \<^verbatim>\<open>RemoveVertex\<close> succeeds (it
  returns false for a vertex that still has edges) is decided by the storage and is a parameter
  \<open>removable\<close> of the calls made so far and the vertex.
\<close>

datatype db_call =
    RemoveEdge edge_accessor
  | RemoveVertex vertex_accessor
  | DetachRemoveVertex vertex_accessor

type_synonym db_calls = "db_call list"

record DeleteCursor =
  del_expressions :: "expression list"
  del_detach :: bool
  del_input_cursor :: input_cursor

text \<open>The first loop: every edge among the expression results is removed.\<close>

fun delete_edges :: "typed_value list \<Rightarrow> db_calls \<Rightarrow> db_calls" where
  "delete_edges [] db = db"
| "delete_edges (EdgeV e # results) db = delete_edges results (db @ [RemoveEdge e])"
| "delete_edges (_ # results) db = delete_edges results db"

text \<open>The second loop: the \<^verbatim>\<open>switch\<close> over the type of every expression result.\<close>

fun delete_vertices ::
  "(db_calls \<Rightarrow> vertex_accessor \<Rightarrow> bool) \<Rightarrow> bool \<Rightarrow> typed_value list \<Rightarrow> db_calls \<Rightarrow>
     query_error + db_calls" where
  "delete_vertices removable detach [] db = Inr db"
| "delete_vertices removable detach (VertexV va # results) db =
     (if detach then delete_vertices removable detach results (db @ [DetachRemoveVertex va])
      else if \<not> removable db va then
        Inl (QueryRuntimeException
          ''Failed to remove vertex because of it's existing connections. Consider using DETACH DELETE.'')
      else delete_vertices removable detach results (db @ [RemoveVertex va]))"
| "delete_vertices removable detach (EdgeV _ # results) db =
     delete_vertices removable detach results db"
| "delete_vertices removable detach (Null # results) db =
     delete_vertices removable detach results db"
| "delete_vertices removable detach (_ # results) db =
     Inl (QueryRuntimeException ''Can only delete edges and vertices'')"

definition DeleteCursor_Pull ::
  "(db_calls \<Rightarrow> vertex_accessor \<Rightarrow> bool) \<Rightarrow> DeleteCursor \<Rightarrow> db_calls \<Rightarrow> frame \<Rightarrow>
     query_error + (bool \<times> frame \<times> DeleteCursor \<times> db_calls)" where
  "DeleteCursor_Pull removable c db frame =
     (case del_input_cursor c of
        [] \<Rightarrow> Inr (False, frame, c, db)
      | row # rest \<Rightarrow>
          (case evaluate_all (del_expressions c) row of
             Inl e \<Rightarrow> Inl e
           | Inr expression_results \<Rightarrow>
               (case delete_vertices removable (del_detach c) expression_results
                       (delete_edges expression_results db) of
                  Inl e \<Rightarrow> Inl e
                | Inr db' \<Rightarrow> Inr (True, row, c\<lparr> del_input_cursor := rest \<rparr>, db'))))"




definition deletable :: "typed_value \<Rightarrow> bool" where
  "deletable v = (type_of v \<in> {TVertex, TEdge, TNull})"

section \<open>Expansion\<close>

text \<open>
  \<^verbatim>\<open>EdgeAtom::Direction\<close>, and the part of the vertex accessor that expansion uses.  The
  storage is outside the operator source, so the edge lists of a vertex are parameters:
  \<^verbatim>\<open>vertex.in(&edge_types)\<close>, \<^verbatim>\<open>vertex.out(&edge_types)\<close>, the variants restricted to
  an existing destination vertex, and the degrees.  Switching an accessor between its old and
  new view has no counterpart here.
\<close>

datatype direction = IN | OUT | BOTH

record graph_accessor =
  vertex_in :: "vertex_accessor \<Rightarrow> nat list \<Rightarrow> edge_accessor list"
  vertex_out :: "vertex_accessor \<Rightarrow> nat list \<Rightarrow> edge_accessor list"
  vertex_in_from :: "vertex_accessor \<Rightarrow> vertex_accessor \<Rightarrow> nat list \<Rightarrow> edge_accessor list"
  vertex_out_to :: "vertex_accessor \<Rightarrow> vertex_accessor \<Rightarrow> nat list \<Rightarrow> edge_accessor list"
  in_degree :: "vertex_accessor \<Rightarrow> nat"
  out_degree :: "vertex_accessor \<Rightarrow> nat"

record ExpandCommon =
  node_symbol :: symbol
  edge_symbol :: symbol
  exp_direction :: direction
  edge_types :: "nat list"
  input_symbol :: symbol
  existing_node :: bool

definition ExpectType :: "typed_value \<Rightarrow> value_type \<Rightarrow> query_error + unit" where
  "ExpectType v expected =
     (if type_of v \<noteq> expected
      then Inl (QueryRuntimeException ''Expected a {} for '{}', but got {}.'')
      else Inr ())"

definition HandleExistingNode ::
  "'a ExpandCommon_scheme \<Rightarrow> vertex_accessor \<Rightarrow> frame \<Rightarrow> query_error + (bool \<times> frame)" where
  "HandleExistingNode self new_node frame =
     (if existing_node self then
        (let old_node_value = frame ! node_symbol self in
         if IsNull old_node_value then Inr (False, frame)
         else (case ExpectType old_node_value TVertex of
                 Inl e \<Rightarrow> Inl e
               | Inr _ \<Rightarrow>
                   (case old_node_value of
                      VertexV old_node \<Rightarrow> Inr (v_address old_node = v_address new_node, frame)
                    | _ \<Rightarrow> Inl TypedValueException)))
      else Inr (True, frame[node_symbol self := VertexV new_node]))"

text \<open>
  \<^verbatim>\<open>Expand::ExpandCursor::InitEdges\<close>.  Of the cursor's state it touches the input cursor
  and the two optional edge lists with their iterators; an iterator is the position in its
  list.
\<close>

record ExpandCursor =
  ex_self :: ExpandCommon
  ex_input_cursor :: input_cursor
  ex_in_edges :: "edge_accessor list option"
  ex_in_edges_it :: "nat option"
  ex_out_edges :: "edge_accessor list option"
  ex_out_edges_it :: "nat option"

definition init_in_edges ::
  "graph_accessor \<Rightarrow> ExpandCursor \<Rightarrow> vertex_accessor \<Rightarrow> frame \<Rightarrow> query_error + ExpandCursor" where
  "init_in_edges g c vertex frame =
     (if exp_direction (ex_self c) = IN \<or> exp_direction (ex_self c) = BOTH then
        (if existing_node (ex_self c) then
           (let existing = frame ! node_symbol (ex_self c) in
            if \<not> IsNull existing then
              (case ExpectType existing TVertex of
                 Inl e \<Rightarrow> Inl e
               | Inr _ \<Rightarrow>
                   (case existing of
                      VertexV node \<Rightarrow>
                        Inr (c\<lparr> ex_in_edges :=
                                   Some (vertex_in_from g vertex node (edge_types (ex_self c))),
                                 ex_in_edges_it := Some 0 \<rparr>)
                    | _ \<Rightarrow> Inl TypedValueException))
            else Inr (c\<lparr> ex_in_edges_it := Some 0 \<rparr>))
         else Inr (c\<lparr> ex_in_edges := Some (vertex_in g vertex (edge_types (ex_self c))),
                       ex_in_edges_it := Some 0 \<rparr>))
      else Inr c)"

definition init_out_edges ::
  "graph_accessor \<Rightarrow> ExpandCursor \<Rightarrow> vertex_accessor \<Rightarrow> frame \<Rightarrow> query_error + ExpandCursor" where
  "init_out_edges g c vertex frame =
     (if exp_direction (ex_self c) = OUT \<or> exp_direction (ex_self c) = BOTH then
        (if existing_node (ex_self c) then
           (let existing = frame ! node_symbol (ex_self c) in
            if \<not> IsNull existing then
              (case ExpectType existing TVertex of
                 Inl e \<Rightarrow> Inl e
               | Inr _ \<Rightarrow>
                   (case existing of
                      VertexV node \<Rightarrow>
                        Inr (c\<lparr> ex_out_edges :=
                                   Some (vertex_out_to g vertex node (edge_types (ex_self c))),
                                 ex_out_edges_it := Some 0 \<rparr>)
                    | _ \<Rightarrow> Inl TypedValueException))
            else Inr (c\<lparr> ex_out_edges_it := Some 0 \<rparr>))
         else Inr (c\<lparr> ex_out_edges := Some (vertex_out g vertex (edge_types (ex_self c))),
                       ex_out_edges_it := Some 0 \<rparr>))
      else Inr c)"

fun InitEdges_loop ::
  "graph_accessor \<Rightarrow> ExpandCursor \<Rightarrow> input_cursor \<Rightarrow> frame \<Rightarrow> ExpandCursor pull_result" where
  "InitEdges_loop g c [] frame = Inr (False, frame, c\<lparr> ex_input_cursor := [] \<rparr>)"
| "InitEdges_loop g c (row # rest) frame =
     (let vertex_value = row ! input_symbol (ex_self c) in
      if IsNull vertex_value then InitEdges_loop g c rest row
      else (case ExpectType vertex_value TVertex of
          Inl e \<Rightarrow> Inl e
        | Inr _ \<Rightarrow>
            (case vertex_value of
               VertexV vertex \<Rightarrow>
                 (case init_in_edges g (c\<lparr> ex_input_cursor := rest \<rparr>) vertex row of
                    Inl e \<Rightarrow> Inl e
                  | Inr c1 \<Rightarrow>
                      (case init_out_edges g c1 vertex row of
                         Inl e \<Rightarrow> Inl e
                       | Inr c2 \<Rightarrow> Inr (True, row, c2)))
             | _ \<Rightarrow> Inl TypedValueException)))"

definition InitEdges :: "graph_accessor \<Rightarrow> ExpandCursor \<Rightarrow> frame \<Rightarrow> ExpandCursor pull_result" where
  "InitEdges g c frame = InitEdges_loop g c (ex_input_cursor c) frame"

text \<open>
  \<^verbatim>\<open>ExpandVariable\<close> with its depth-first cursor.  The filter lambda is given by its two
  inner symbols and its optional expression.
\<close>

record ExpandVariable = ExpandCommon +
  is_reverse :: bool
  lower_bound :: "expression option"
  upper_bound :: "expression option"
  inner_edge_symbol :: symbol
  inner_node_symbol :: symbol
  filter_expression :: "expression option"

text \<open>
  \<^verbatim>\<open>ExpandFromVertex\<close>: the incoming edges, each paired with \<open>IN\<close>, chained with the
  outgoing edges, each paired with \<open>OUT\<close>.
\<close>

definition ExpandFromVertex ::
  "graph_accessor \<Rightarrow> vertex_accessor \<Rightarrow> direction \<Rightarrow> nat list \<Rightarrow>
     (edge_accessor \<times> direction) list" where
  "ExpandFromVertex g vertex dir types =
     (if dir \<noteq> OUT \<and> in_degree g vertex > 0
      then map (\<lambda>e. (e, IN)) (vertex_in g vertex types) else []) @
     (if dir \<noteq> IN \<and> out_degree g vertex > 0
      then map (\<lambda>e. (e, OUT)) (vertex_out g vertex types) else [])"

definition EvaluateInt :: "expression \<Rightarrow> frame \<Rightarrow> string \<Rightarrow> query_error + int" where
  "EvaluateInt expr frame what =
     (case expr frame of
        Inl e \<Rightarrow> Inl e
      | Inr (IntV n) \<Rightarrow> Inr n
      | Inr _ \<Rightarrow> Inl (QueryRuntimeException (what @ '' must be an int'')))"

definition EvaluateFilter :: "expression \<Rightarrow> frame \<Rightarrow> query_error + bool" where
  "EvaluateFilter filter_expr frame =
     (case filter_expr frame of
        Inl e \<Rightarrow> Inl e
      | Inr result \<Rightarrow>
          if IsNull result then Inr False
          else (case result of
              BoolV b \<Rightarrow> Inr b
            | _ \<Rightarrow> Inl (QueryRuntimeException
                        ''Filter expression must be a bool or null, but got {}.'')))"

text \<open>
  The cursor.  \<^verbatim>\<open>edges_\<close> and \<^verbatim>\<open>edges_it_\<close> together are a stack of the edges each
  level has still to visit; the head of \<open>ev_edges\<close> is the back of the two vectors.  The two
  counters are not in the source: they count the evaluations of the bound expressions.
\<close>

record ExpandVariableCursor =
  ev_self :: ExpandVariable
  ev_input_cursor :: input_cursor
  ev_upper_bound :: int
  ev_lower_bound :: int
  ev_edges :: "(edge_accessor \<times> direction) list list"
  ev_lower_evaluations :: nat
  ev_upper_evaluations :: nat

definition MakeExpandVariableCursor :: "ExpandVariable \<Rightarrow> input_cursor \<Rightarrow> ExpandVariableCursor" where
  "MakeExpandVariableCursor self inp =
     \<lparr> ev_self = self, ev_input_cursor = inp, ev_upper_bound = - 1, ev_lower_bound = - 1,
       ev_edges = [], ev_lower_evaluations = 0, ev_upper_evaluations = 0 \<rparr>"

definition calc_bound :: "expression \<Rightarrow> frame \<Rightarrow> query_error + int" where
  "calc_bound bound frame =
     (case EvaluateInt bound frame ''Variable expansion bound'' of
        Inl e \<Rightarrow> Inl e
      | Inr v \<Rightarrow>
          if v < 0 then
            Inl (QueryRuntimeException ''Variable expansion bound must be positive or zero'')
          else Inr v)"

definition int64_max :: int where
  "int64_max = 2 ^ 63 - 1"

text \<open>The part of \<^verbatim>\<open>PullInput\<close> after the type check: the bounds, the first level, the frame.\<close>

definition PullInput_vertex ::
  "graph_accessor \<Rightarrow> ExpandVariableCursor \<Rightarrow> vertex_accessor \<Rightarrow> frame \<Rightarrow>
     ExpandVariableCursor pull_result" where
  "PullInput_vertex g c vertex frame =
     (case (case lower_bound (ev_self c) of
              Some b \<Rightarrow> (case calc_bound b frame of
                           Inl e \<Rightarrow> Inl e
                         | Inr v \<Rightarrow> Inr (v, Suc (ev_lower_evaluations c)))
            | None \<Rightarrow> Inr (1, ev_lower_evaluations c)) of
        Inl e \<Rightarrow> Inl e
      | Inr (lower, lower_n) \<Rightarrow>
          (case (case upper_bound (ev_self c) of
                   Some b \<Rightarrow> (case calc_bound b frame of
                                Inl e \<Rightarrow> Inl e
                              | Inr v \<Rightarrow> Inr (v, Suc (ev_upper_evaluations c)))
                 | None \<Rightarrow> Inr (int64_max, ev_upper_evaluations c)) of
             Inl e \<Rightarrow> Inl e
           | Inr (upper, upper_n) \<Rightarrow>
               Inr (True, frame[edge_symbol (ev_self c) := ListV []],
                    c\<lparr> ev_lower_bound := lower, ev_upper_bound := upper,
                       ev_lower_evaluations := lower_n, ev_upper_evaluations := upper_n,
                       ev_edges :=
                         (if upper > 0
                          then ExpandFromVertex g vertex (exp_direction (ev_self c))
                                 (edge_types (ev_self c)) # ev_edges c
                          else ev_edges c) \<rparr>)))"

fun PullInput_loop ::
  "graph_accessor \<Rightarrow> ExpandVariableCursor \<Rightarrow> input_cursor \<Rightarrow> frame \<Rightarrow>
     ExpandVariableCursor pull_result" where
  "PullInput_loop g c [] frame = Inr (False, frame, c\<lparr> ev_input_cursor := [] \<rparr>)"
| "PullInput_loop g c (row # rest) frame =
     (let vertex_value = row ! input_symbol (ev_self c) in
      if IsNull vertex_value then PullInput_loop g c rest row
      else (case ExpectType vertex_value TVertex of
          Inl e \<Rightarrow> Inl e
        | Inr _ \<Rightarrow>
            (case vertex_value of
               VertexV vertex \<Rightarrow> PullInput_vertex g (c\<lparr> ev_input_cursor := rest \<rparr>) vertex row
             | _ \<Rightarrow> Inl TypedValueException)))"

definition PullInput ::
  "graph_accessor \<Rightarrow> ExpandVariableCursor \<Rightarrow> frame \<Rightarrow> ExpandVariableCursor pull_result" where
  "PullInput g c frame = PullInput_loop g c (ev_input_cursor c) frame"

text \<open>
  The edge-uniqueness test of \<^verbatim>\<open>Expand\<close>: \<^verbatim>\<open>std::any_of\<close> over the edges on the frame,
  comparing accessors by address; reading a value that is not an edge raises.
\<close>

fun found_existing :: "edge_accessor \<Rightarrow> typed_value list \<Rightarrow> query_error + bool" where
  "found_existing current_edge [] = Inr False"
| "found_existing current_edge (EdgeV edge # rest) =
     (if e_address current_edge = e_address edge then Inr True
      else found_existing current_edge rest)"
| "found_existing current_edge (_ # rest) = Inl TypedValueException"

text \<open>
  \<^verbatim>\<open>AppendEdge\<close>, given the size of \<^verbatim>\<open>edges_\<close>.  The source computes
  \<^verbatim>\<open>edges_.size() - 1U\<close> in unsigned arithmetic; for an empty stack that is the largest
  value, so the minimum is the size of the list.
\<close>

definition AppendEdge ::
  "bool \<Rightarrow> nat \<Rightarrow> edge_accessor \<Rightarrow> typed_value list \<Rightarrow> typed_value list" where
  "AppendEdge reverse edges_size new_edge edges_on_frame =
     (let keep = min (length edges_on_frame)
                   (if edges_size = 0 then length edges_on_frame else edges_size - 1)
      in if reverse
         then EdgeV new_edge # drop (length edges_on_frame - keep) edges_on_frame
         else take keep edges_on_frame @ [EdgeV new_edge])"

fun pop_exhausted :: "'a list list \<Rightarrow> 'a list list" where
  "pop_exhausted ([] # below) = pop_exhausted below"
| "pop_exhausted stack = stack"

text \<open>
  One round of the outer loop of \<^verbatim>\<open>Expand\<close>: it either returns (a flag or an exception)
  or continues with a new state and frame.
\<close>

datatype 'c loop_step = Return "'c pull_result" | Continue 'c frame

definition Expand_accept ::
  "graph_accessor \<Rightarrow> ExpandVariableCursor \<Rightarrow> edge_accessor \<Rightarrow> vertex_accessor \<Rightarrow>
     typed_value list \<Rightarrow> frame \<Rightarrow> ExpandVariableCursor loop_step" where
  "Expand_accept g c edge current_vertex edges_on_frame frame =
     (let c' = (if ev_upper_bound c > int (length (ev_edges c))
                then c\<lparr> ev_edges :=
                         ExpandFromVertex g current_vertex (exp_direction (ev_self c))
                           (edge_types (ev_self c)) # ev_edges c \<rparr>
                else c)
      in if int (length edges_on_frame) \<ge> ev_lower_bound c
         then Return (Inr (True, frame, c'))
         else Continue c' frame)"

definition Expand_edge ::
  "graph_accessor \<Rightarrow> ExpandVariableCursor \<Rightarrow> edge_accessor \<times> direction \<Rightarrow>
     typed_value list \<Rightarrow> frame \<Rightarrow> ExpandVariableCursor loop_step" where
  "Expand_edge g c current_edge edges_on_frame frame =
     (case found_existing (fst current_edge) edges_on_frame of
        Inl e \<Rightarrow> Return (Inl e)
      | Inr True \<Rightarrow> Continue c frame
      | Inr False \<Rightarrow>
          (let edges_on_frame' =
                 AppendEdge (is_reverse (ev_self c)) (length (ev_edges c)) (fst current_edge)
                   edges_on_frame;
               frame1 = frame[edge_symbol (ev_self c) := ListV edges_on_frame'];
               current_vertex = (if snd current_edge = IN then e_from (fst current_edge)
                                 else e_to (fst current_edge))
           in case HandleExistingNode (ev_self c) current_vertex frame1 of
                Inl e \<Rightarrow> Return (Inl e)
              | Inr (False, frame2) \<Rightarrow> Continue c frame2
              | Inr (True, frame2) \<Rightarrow>
                  (let frame3 = frame2[inner_edge_symbol (ev_self c) := EdgeV (fst current_edge)];
                       frame4 = frame3[inner_node_symbol (ev_self c) := VertexV current_vertex]
                   in case filter_expression (ev_self c) of
                        None \<Rightarrow> Expand_accept g c (fst current_edge) current_vertex
                                  edges_on_frame' frame4
                      | Some filter_expr \<Rightarrow>
                          (case EvaluateFilter filter_expr frame4 of
                             Inl e \<Rightarrow> Return (Inl e)
                           | Inr False \<Rightarrow> Continue c frame4
                           | Inr True \<Rightarrow> Expand_accept g c (fst current_edge) current_vertex
                                          edges_on_frame' frame4))))"

definition Expand_step ::
  "graph_accessor \<Rightarrow> ExpandVariableCursor \<Rightarrow> frame \<Rightarrow> ExpandVariableCursor loop_step" where
  "Expand_step g c frame =
     (case pop_exhausted (ev_edges c) of
        [] \<Rightarrow> Return (Inr (False, frame, c\<lparr> ev_edges := [] \<rparr>))
      | level # below \<Rightarrow>
          (case level of
             [] \<Rightarrow> Return (Inr (False, frame, c\<lparr> ev_edges := [] \<rparr>))
           | current_edge # remaining \<Rightarrow>
               (case frame ! edge_symbol (ev_self c) of
                  ListV edges_on_frame \<Rightarrow>
                    (let keep = min (length edges_on_frame) (Suc (length below));
                         edges_on_frame' =
                           (if is_reverse (ev_self c)
                            then drop (length edges_on_frame - keep) edges_on_frame
                            else take keep edges_on_frame);
                         frame1 = frame[edge_symbol (ev_self c) := ListV edges_on_frame']
                     in Expand_edge g (c\<lparr> ev_edges := remaining # below \<rparr>) current_edge
                          edges_on_frame' frame1)
                | _ \<Rightarrow> Return (Inl TypedValueException))))"

text \<open>
  The loop of \<^verbatim>\<open>Expand\<close>, bounded by a number of rounds: \<open>None\<close> means that the rounds
  were used up before the loop returned.
\<close>

fun Expand :: "nat \<Rightarrow> graph_accessor \<Rightarrow> ExpandVariableCursor \<Rightarrow> frame \<Rightarrow>
    ExpandVariableCursor pull_result option" where
  "Expand 0 g c frame = None"
| "Expand (Suc n) g c frame =
     (case Expand_step g c frame of
        Return r \<Rightarrow> Some r
      | Continue c' frame' \<Rightarrow> Expand n g c' frame')"

text \<open>
  \<^verbatim>\<open>ExpandVariableCursor::Pull\<close>, with the same bound on the rounds of its loop and of
  each run of \<^verbatim>\<open>Expand\<close>.
\<close>

definition Pull_start ::
  "ExpandVariableCursor \<Rightarrow> frame \<Rightarrow> query_error + (bool \<times> frame)" where
  "Pull_start c frame =
     (if ev_lower_bound c = 0 then
        (case frame ! input_symbol (ev_self c) of
           VertexV start_vertex \<Rightarrow> HandleExistingNode (ev_self c) start_vertex frame
         | _ \<Rightarrow> Inl TypedValueException)
      else Inr (False, frame))"

fun ExpandVariableCursor_Pull ::
  "nat \<Rightarrow> graph_accessor \<Rightarrow> ExpandVariableCursor \<Rightarrow> frame \<Rightarrow>
     ExpandVariableCursor pull_result option" where
  "ExpandVariableCursor_Pull 0 g c frame = None"
| "ExpandVariableCursor_Pull (Suc n) g c frame =
     (case Expand (Suc n) g c frame of
        None \<Rightarrow> None
      | Some (Inl e) \<Rightarrow> Some (Inl e)
      | Some (Inr (True, frame1, c1)) \<Rightarrow> Some (Inr (True, frame1, c1))
      | Some (Inr (False, frame1, c1)) \<Rightarrow>
          (case PullInput g c1 frame1 of
             Inl e \<Rightarrow> Some (Inl e)
           | Inr (False, frame2, c2) \<Rightarrow> Some (Inr (False, frame2, c2))
           | Inr (True, frame2, c2) \<Rightarrow>
               (case Pull_start c2 frame2 of
                  Inl e \<Rightarrow> Some (Inl e)
                | Inr (True, frame3) \<Rightarrow> Some (Inr (True, frame3, c2))
                | Inr (False, frame3) \<Rightarrow> ExpandVariableCursor_Pull n g c2 frame3)))"

text \<open>
  The rows of the first \<open>k\<close> pulls, each pull getting the frame the previous one left; the
  collection ends at the first pull that does not produce a row.
\<close>

fun Pull_rows ::
  "nat \<Rightarrow> nat \<Rightarrow> graph_accessor \<Rightarrow> ExpandVariableCursor \<Rightarrow> frame \<Rightarrow> frame list" where
  "Pull_rows 0 n g c frame = []"
| "Pull_rows (Suc k) n g c frame =
     (case ExpandVariableCursor_Pull n g c frame of
        Some (Inr (True, frame', c')) \<Rightarrow> frame' # Pull_rows k n g c' frame'
      | _ \<Rightarrow> [])"

text \<open>No edge occurs twice in a list of values, all of which are edges.\<close>

fun unique_edges :: "typed_value list \<Rightarrow> bool" where
  "unique_edges [] = True"
| "unique_edges (EdgeV e # rest) = (found_existing e rest = Inr False \<and> unique_edges rest)"
| "unique_edges (_ # rest) = False"

text \<open>
  For stating the uniqueness of edges: the frame has a slot for the edge symbol that holds a
  list of edges without repetition; the edge symbol is none of the other symbols the cursor
  writes; and the relation between the stack and the frame that every round of the loops keeps.
\<close>

definition good_frame :: "'a ExpandCommon_scheme \<Rightarrow> frame \<Rightarrow> bool" where
  "good_frame self frame =
     (edge_symbol self < length frame \<and>
      (case frame ! edge_symbol self of ListV xs \<Rightarrow> unique_edges xs | _ \<Rightarrow> False))"

definition symbols_apart :: "ExpandVariable \<Rightarrow> bool" where
  "symbols_apart self =
     (edge_symbol self \<noteq> node_symbol self \<and> edge_symbol self \<noteq> inner_edge_symbol self \<and>
      edge_symbol self \<noteq> inner_node_symbol self)"

definition stack_inv :: "ExpandVariableCursor \<Rightarrow> frame \<Rightarrow> bool" where
  "stack_inv c frame = (ev_edges c = [] \<or> good_frame (ev_self c) frame)"

definition step_good ::
  "ExpandVariable \<Rightarrow> input_cursor \<Rightarrow> ExpandVariableCursor loop_step \<Rightarrow> bool" where
  "step_good self inp st =
     (case st of
        Return (Inl e) \<Rightarrow> True
      | Return (Inr (b, frame', c')) \<Rightarrow>
          ev_self c' = self \<and> ev_input_cursor c' = inp \<and> stack_inv c' frame' \<and>
          (if b then good_frame self frame' else ev_edges c' = [])
      | Continue c' frame' \<Rightarrow>
          ev_self c' = self \<and> ev_input_cursor c' = inp \<and> stack_inv c' frame')"

text \<open>
  A sample for running the model: two vertices joined by an edge in each direction, an
  expansion along outgoing edges with literal bounds, and an input row of five slots.
\<close>



definition sample_edge_1 :: edge_accessor where
  "sample_edge_1 = EdgeAccessor 10 (VertexAccessor 1) (VertexAccessor 2) 0"

definition sample_edge_2 :: edge_accessor where
  "sample_edge_2 = EdgeAccessor 11 (VertexAccessor 2) (VertexAccessor 1) 0"

definition sample_graph :: graph_accessor where
  "sample_graph =
     \<lparr> vertex_in = (\<lambda>v types. if v = VertexAccessor 1 then [sample_edge_2]
                              else if v = VertexAccessor 2 then [sample_edge_1] else []),
       vertex_out = (\<lambda>v types. if v = VertexAccessor 1 then [sample_edge_1]
                               else if v = VertexAccessor 2 then [sample_edge_2] else []),
       vertex_in_from = (\<lambda>v w types. []),
       vertex_out_to = (\<lambda>v w types. []),
       in_degree = (\<lambda>v. 1), out_degree = (\<lambda>v. 1) \<rparr>"

definition sample_expansion :: "int \<Rightarrow> int \<Rightarrow> ExpandVariable" where
  "sample_expansion l u =
     \<lparr> node_symbol = 1, edge_symbol = 2, exp_direction = OUT, edge_types = [],
       input_symbol = 0, existing_node = False, is_reverse = False,
       lower_bound = Some (Literal (IntV l)), upper_bound = Some (Literal (IntV u)),
       inner_edge_symbol = 3, inner_node_symbol = 4, filter_expression = None \<rparr>"

definition sample_row :: frame where
  "sample_row = [VertexV (VertexAccessor 1), Null, Null, Null, Null]"

section \<open>Distinct\<close>

text \<open>
  \<^verbatim>\<open>Distinct::DistinctCursor\<close>.  \<^verbatim>\<open>seen_rows_\<close> is a hash set of rows compared with
  \<^verbatim>\<open>TypedValueVectorEqual\<close>; it is kept as the list of the rows inserted so far, and an
  insertion succeeds when no row of the list is equal to the new one.
\<close>

record DistinctCursor =
  dist_value_symbols :: "symbol list"
  dist_input_cursor :: input_cursor
  dist_seen_rows :: "typed_value list list"

definition MakeDistinctCursor :: "symbol list \<Rightarrow> input_cursor \<Rightarrow> DistinctCursor" where
  "MakeDistinctCursor symbols inp =
     \<lparr> dist_value_symbols = symbols, dist_input_cursor = inp, dist_seen_rows = [] \<rparr>"

text \<open>The row the cursor builds from the frame: the values of its symbols.\<close>

definition projection :: "symbol list \<Rightarrow> frame \<Rightarrow> typed_value list" where
  "projection symbols frame = map (\<lambda>s. frame ! s) symbols"

definition seen :: "typed_value_ops \<Rightarrow> typed_value list list \<Rightarrow> typed_value list \<Rightarrow> bool" where
  "seen ops seen_rows row = (\<exists>r \<in> set seen_rows. TypedValueVectorEqual ops r row)"

function DistinctCursor_Pull ::
  "typed_value_ops \<Rightarrow> DistinctCursor \<Rightarrow> frame \<Rightarrow> DistinctCursor pull_result" where
  "DistinctCursor_Pull ops c frame =
     (case dist_input_cursor c of
        [] \<Rightarrow> Inr (False, frame, c)
      | input_row # rest \<Rightarrow>
          (let row = projection (dist_value_symbols c) input_row in
           if seen ops (dist_seen_rows c) row
           then DistinctCursor_Pull ops (c\<lparr> dist_input_cursor := rest \<rparr>) input_row
           else Inr (True, input_row,
                     c\<lparr> dist_input_cursor := rest,
                        dist_seen_rows := dist_seen_rows c @ [row] \<rparr>)))"
  by pat_completeness auto

termination DistinctCursor_Pull
  by (relation "measure (\<lambda>(ops, c, frame). length (dist_input_cursor c))") auto

declare DistinctCursor_Pull.simps [simp del]

text \<open>
  The rows of all pulls of the cursor up to exhaustion, each pull getting the frame the previous
  one left.
\<close>

lemma DistinctCursor_Pull_shorter:
  "DistinctCursor_Pull ops c frame = Inr (True, frame', c') \<Longrightarrow>
     length (dist_input_cursor c') < length (dist_input_cursor c)"
proof (induction ops c frame rule: DistinctCursor_Pull.induct)
  case (1 ops c frame)
  show ?case
  proof (cases "dist_input_cursor c")
    case Nil
    with "1.prems" show ?thesis by (simp add: DistinctCursor_Pull.simps[of ops c])
  next
    case (Cons input_row rest)
    show ?thesis
    proof (cases "seen ops (dist_seen_rows c) (projection (dist_value_symbols c) input_row)")
      case True
      with Cons "1.prems" have
        "DistinctCursor_Pull ops (c\<lparr> dist_input_cursor := rest \<rparr>) input_row =
           Inr (True, frame', c')"
        by (simp add: DistinctCursor_Pull.simps[of ops c])
      from "1.IH"[OF Cons refl True this] Cons show ?thesis by simp
    next
      case False
      with Cons "1.prems" show ?thesis
        by (auto simp: DistinctCursor_Pull.simps[of ops c])
    qed
  qed
qed

function DistinctCursor_rows ::
  "typed_value_ops \<Rightarrow> DistinctCursor \<Rightarrow> frame \<Rightarrow> frame list" where
  "DistinctCursor_rows ops c frame =
     (case DistinctCursor_Pull ops c frame of
        Inr (True, frame', c') \<Rightarrow> frame' # DistinctCursor_rows ops c' frame'
      | _ \<Rightarrow> [])"
  by pat_completeness auto

termination DistinctCursor_rows
  by (relation "measure (\<lambda>(ops, c, frame). length (dist_input_cursor c))")
     (auto dest: DistinctCursor_Pull_shorter)

declare DistinctCursor_rows.simps [simp del]

text \<open>
  For stating what the cursor produces: no row of a list is equal, on the symbols, to a later
  row of the list.
\<close>

fun no_later_equal :: "typed_value_ops \<Rightarrow> symbol list \<Rightarrow> frame list \<Rightarrow> bool" where
  "no_later_equal ops symbols [] = True"
| "no_later_equal ops symbols (row # rows) =
     (list_all (\<lambda>later. \<not> TypedValueVectorEqual ops (projection symbols row)
                            (projection symbols later)) rows \<and>
      no_later_equal ops symbols rows)"

text \<open>
  The rows the cursor keeps, computed from the rows of its input and the rows seen so far; the
  proofs relate the pulls of the cursor to this function.
\<close>

fun kept_rows ::
  "typed_value_ops \<Rightarrow> symbol list \<Rightarrow> typed_value list list \<Rightarrow> frame list \<Rightarrow> frame list" where
  "kept_rows ops symbols seen_rows [] = []"
| "kept_rows ops symbols seen_rows (input_row # rest) =
     (if seen ops seen_rows (projection symbols input_row)
      then kept_rows ops symbols seen_rows rest
      else input_row #
           kept_rows ops symbols (seen_rows @ [projection symbols input_row]) rest)"

section \<open>Merge\<close>

text \<open>
  The match and the create branch of a Merge are cursors that the Merge resets for every input
  row.  Such a cursor is represented by its plan, the rows it produces when it is started over
  a frame, and by the rows it still has to produce, absent when the cursor is fresh or reset.
\<close>

record plan_cursor =
  pc_plan :: "frame \<Rightarrow> frame list"
  pc_rows :: "frame list option"

definition MakePlanCursor :: "(frame \<Rightarrow> frame list) \<Rightarrow> plan_cursor" where
  "MakePlanCursor plan = \<lparr> pc_plan = plan, pc_rows = None \<rparr>"

definition plan_Reset :: "plan_cursor \<Rightarrow> plan_cursor" where
  "plan_Reset pc = pc\<lparr> pc_rows := None \<rparr>"

definition plan_Pull :: "plan_cursor \<Rightarrow> frame \<Rightarrow> bool \<times> frame \<times> plan_cursor" where
  "plan_Pull pc frame =
     (case (case pc_rows pc of None \<Rightarrow> pc_plan pc frame | Some rows \<Rightarrow> rows) of
        [] \<Rightarrow> (False, frame, pc\<lparr> pc_rows := Some [] \<rparr>)
      | row # rest \<Rightarrow> (True, row, pc\<lparr> pc_rows := Some rest \<rparr>))"

text \<open>
  \<^verbatim>\<open>Merge::MergeCursor\<close>.  The field \<open>merge_create_pulled\<close> is not in the source: it
  records, for every pull of the create cursor, the frame it was pulled over.
\<close>

record MergeCursor =
  merge_input_cursor :: input_cursor
  merge_match_cursor :: plan_cursor
  merge_create_cursor :: plan_cursor
  merge_pull_input :: bool
  merge_create_pulled :: "frame list"

definition MakeMergeCursor ::
  "input_cursor \<Rightarrow> (frame \<Rightarrow> frame list) \<Rightarrow> (frame \<Rightarrow> frame list) \<Rightarrow> MergeCursor" where
  "MakeMergeCursor inp merge_match merge_create =
     \<lparr> merge_input_cursor = inp, merge_match_cursor = MakePlanCursor merge_match,
       merge_create_cursor = MakePlanCursor merge_create, merge_pull_input = True,
       merge_create_pulled = [] \<rparr>"

text \<open>The first \<^verbatim>\<open>if (pull_input_)\<close> of \<^verbatim>\<open>Pull\<close>: \<open>None\<close> when the input is exhausted.\<close>

definition Merge_input :: "MergeCursor \<Rightarrow> frame \<Rightarrow> (MergeCursor \<times> frame) option" where
  "Merge_input c frame =
     (if merge_pull_input c then
        (case merge_input_cursor c of
           [] \<Rightarrow> None
         | row # rest \<Rightarrow>
             Some (c\<lparr> merge_input_cursor := rest,
                      merge_match_cursor := plan_Reset (merge_match_cursor c),
                      merge_create_cursor := plan_Reset (merge_create_cursor c) \<rparr>, row))
      else Some (c, frame))"

function MergeCursor_Pull :: "MergeCursor \<Rightarrow> frame \<Rightarrow> MergeCursor pull_result" where
  "MergeCursor_Pull c frame =
     (case Merge_input c frame of
        None \<Rightarrow> Inr (False, frame, c)
      | Some (c1, frame1) \<Rightarrow>
          (case plan_Pull (merge_match_cursor c1) frame1 of
             (True, frame2, match') \<Rightarrow>
               Inr (True, frame2, c1\<lparr> merge_match_cursor := match', merge_pull_input := False \<rparr>)
           | (False, frame2, match') \<Rightarrow>
               if merge_pull_input c1 then
                 (case plan_Pull (merge_create_cursor c1) frame2 of
                    (merge_create_pull_result, frame3, create') \<Rightarrow>
                      Inr (True, frame3,
                           c1\<lparr> merge_match_cursor := match', merge_create_cursor := create',
                               merge_create_pulled := merge_create_pulled c1 @ [frame2] \<rparr>))
               else MergeCursor_Pull
                      (c1\<lparr> merge_match_cursor := match', merge_pull_input := True \<rparr>) frame2))"
  by pat_completeness auto

lemma Merge_input_flag:
  "Merge_input c frame = Some (c1, frame1) \<Longrightarrow> merge_pull_input c1 = merge_pull_input c"
  by (auto simp: Merge_input_def split: if_splits list.splits)

termination MergeCursor_Pull
  by (relation "measure (\<lambda>(c, frame). if merge_pull_input c then 0 else 1)")
     (auto dest: Merge_input_flag)

declare MergeCursor_Pull.simps [simp del]

text \<open>
  The rows a plan cursor has still to produce over a frame, and the run of a Merge cursor: the
  rows of all its pulls up to exhaustion, with the final state of the cursor.
\<close>

definition pending :: "plan_cursor \<Rightarrow> frame \<Rightarrow> frame list" where
  "pending pc frame = (case pc_rows pc of None \<Rightarrow> pc_plan pc frame | Some rows \<Rightarrow> rows)"

lemma plan_Pull_pending:
  "plan_Pull pc frame =
     (case pending pc frame of
        [] \<Rightarrow> (False, frame, pc\<lparr> pc_rows := Some [] \<rparr>)
      | row # rest \<Rightarrow> (True, row, pc\<lparr> pc_rows := Some rest \<rparr>))"
  by (simp add: plan_Pull_def pending_def)

lemma Merge_Pull_input_row:
  assumes "merge_pull_input c" "merge_input_cursor c = row # rest"
  shows "MergeCursor_Pull c frame =
     (case pc_plan (merge_match_cursor c) row of
        m # ms \<Rightarrow>
          Inr (True, m,
               c\<lparr> merge_input_cursor := rest,
                  merge_match_cursor := (merge_match_cursor c)\<lparr> pc_rows := Some ms \<rparr>,
                  merge_create_cursor := plan_Reset (merge_create_cursor c),
                  merge_pull_input := False \<rparr>)
      | [] \<Rightarrow>
          Inr (True, (case pc_plan (merge_create_cursor c) row of [] \<Rightarrow> row | x # xs \<Rightarrow> x),
               c\<lparr> merge_input_cursor := rest,
                  merge_match_cursor := (merge_match_cursor c)\<lparr> pc_rows := Some [] \<rparr>,
                  merge_create_cursor := (merge_create_cursor c)
                     \<lparr> pc_rows := Some (tl (pc_plan (merge_create_cursor c) row)) \<rparr>,
                  merge_create_pulled := merge_create_pulled c @ [row] \<rparr>))"
  using assms
  by (simp add: MergeCursor_Pull.simps[of c] Merge_input_def plan_Pull_def plan_Reset_def
      split: list.splits)

lemma Merge_Pull_input_empty:
  "merge_pull_input c \<Longrightarrow> merge_input_cursor c = [] \<Longrightarrow>
     MergeCursor_Pull c frame = Inr (False, frame, c)"
  by (simp add: MergeCursor_Pull.simps[of c] Merge_input_def)

lemma Merge_Pull_match_row:
  "\<not> merge_pull_input c \<Longrightarrow> pending (merge_match_cursor c) frame = m # ms \<Longrightarrow>
     MergeCursor_Pull c frame =
       Inr (True, m, c\<lparr> merge_match_cursor := (merge_match_cursor c)\<lparr> pc_rows := Some ms \<rparr>,
                       merge_pull_input := False \<rparr>)"
  by (simp add: MergeCursor_Pull.simps[of c] Merge_input_def plan_Pull_pending)

lemma Merge_Pull_match_done:
  "\<not> merge_pull_input c \<Longrightarrow> pending (merge_match_cursor c) frame = [] \<Longrightarrow>
     MergeCursor_Pull c frame =
       MergeCursor_Pull
         (c\<lparr> merge_match_cursor := (merge_match_cursor c)\<lparr> pc_rows := Some [] \<rparr>,
             merge_pull_input := True \<rparr>) frame"
  by (simp add: MergeCursor_Pull.simps[of c] Merge_input_def plan_Pull_pending)

lemma Merge_Pull_decreases:
  assumes "MergeCursor_Pull c frame = Inr (True, frame', c')"
  shows "length (merge_input_cursor c') < length (merge_input_cursor c) \<or>
         (merge_input_cursor c' = merge_input_cursor c \<and> \<not> merge_pull_input c \<and>
          \<not> merge_pull_input c' \<and>
          length (pending (merge_match_cursor c') frame') <
          length (pending (merge_match_cursor c) frame))"
proof (cases "merge_pull_input c")
  case True
  show ?thesis
  proof (cases "merge_input_cursor c")
    case Nil
    with True assms show ?thesis by (simp add: Merge_Pull_input_empty)
  next
    case (Cons row rest)
    with True assms show ?thesis
      by (auto simp: Merge_Pull_input_row split: list.splits)
  qed
next
  case False
  show ?thesis
  proof (cases "pending (merge_match_cursor c) frame")
    case (Cons m ms)
    with False assms show ?thesis
      by (auto simp: Merge_Pull_match_row pending_def)
  next
    case Nil
    let ?c1 = "c\<lparr> merge_match_cursor := (merge_match_cursor c)\<lparr> pc_rows := Some [] \<rparr>,
                  merge_pull_input := True \<rparr>"
    from False Nil assms have r: "MergeCursor_Pull ?c1 frame = Inr (True, frame', c')"
      by (simp add: Merge_Pull_match_done)
    show ?thesis
    proof (cases "merge_input_cursor c")
      case inil: Nil
      with r show ?thesis by (simp add: Merge_Pull_input_empty)
    next
      case (Cons row rest)
      with r show ?thesis
        by (auto simp: Merge_Pull_input_row split: list.splits)
    qed
  qed
qed

function MergeCursor_run :: "MergeCursor \<Rightarrow> frame \<Rightarrow> frame list \<times> MergeCursor" where
  "MergeCursor_run c frame =
     (case MergeCursor_Pull c frame of
        Inr (True, frame', c') \<Rightarrow>
          (case MergeCursor_run c' frame' of (rows, final) \<Rightarrow> (frame' # rows, final))
      | Inr (False, frame', c') \<Rightarrow> ([], c')
      | Inl e \<Rightarrow> ([], c))"
  by pat_completeness auto

termination MergeCursor_run
  by (relation "measures [\<lambda>(c, frame). length (merge_input_cursor c),
                           \<lambda>(c, frame). if merge_pull_input c then 0
                                         else length (pending (merge_match_cursor c) frame)]")
     (auto dest: Merge_Pull_decreases)

declare MergeCursor_run.simps [simp del]

text \<open>
  For stating what a Merge produces: the output for one input row (the rows of the match plan,
  or else the first row of the create plan; the frame is left as it is when the create plan
  produces nothing), and the output and the create pulls expected of a run from any state.
\<close>

definition Merge_row_output ::
  "(frame \<Rightarrow> frame list) \<Rightarrow> (frame \<Rightarrow> frame list) \<Rightarrow> frame \<Rightarrow> frame list" where
  "Merge_row_output merge_match merge_create row =
     (case merge_match row of
        [] \<Rightarrow> [case merge_create row of [] \<Rightarrow> row | created # others \<Rightarrow> created]
      | matched # others \<Rightarrow> matched # others)"

definition Merge_expected ::
  "MergeCursor \<Rightarrow> frame \<Rightarrow> frame list \<times> frame list" where
  "Merge_expected c frame =
     ((if merge_pull_input c then [] else pending (merge_match_cursor c) frame) @
      concat (map (Merge_row_output (pc_plan (merge_match_cursor c))
                     (pc_plan (merge_create_cursor c))) (merge_input_cursor c)),
      merge_create_pulled c @
      filter (\<lambda>row. pc_plan (merge_match_cursor c) row = []) (merge_input_cursor c))"

definition Merge_result :: "MergeCursor \<Rightarrow> frame \<Rightarrow> frame list \<times> frame list" where
  "Merge_result c frame =
     (fst (MergeCursor_run c frame), merge_create_pulled (snd (MergeCursor_run c frame)))"

section \<open>Accumulate and Synchronize\<close>

















section \<open>ScanAll\<close>

text \<open>
  \<^verbatim>\<open>ScanAllCursor\<close>, the cursor of \<^verbatim>\<open>ScanAll\<close>, \<^verbatim>\<open>ScanAllByLabel\<close> and
  \<^verbatim>\<open>ScanAllByLabelPropertyRange\<close>.  \<^verbatim>\<open>get_vertices_\<close> is the function the cursor is made
  with; for the property range it evaluates the bounds on the frame.  \<^verbatim>\<open>vertices_\<close> and
  \<^verbatim>\<open>vertices_it_\<close> are kept together as the vertices not yet produced, absent before the first
  row of the input.  What \<^verbatim>\<open>db_.should_abort()\<close> answers is a parameter of the pull.
\<close>

record ScanAllCursor =
  scan_output_symbol :: symbol
  scan_input_cursor :: input_cursor
  scan_get_vertices :: "frame \<Rightarrow> vertex_accessor list"
  scan_vertices :: "vertex_accessor list option"

definition MakeScanAllCursor ::
  "symbol \<Rightarrow> input_cursor \<Rightarrow> (frame \<Rightarrow> vertex_accessor list) \<Rightarrow> ScanAllCursor" where
  "MakeScanAllCursor output_symbol inp get_vertices =
     \<lparr> scan_output_symbol = output_symbol, scan_input_cursor = inp,
       scan_get_vertices = get_vertices, scan_vertices = None \<rparr>"

text \<open>The end of \<^verbatim>\<open>Pull\<close>, from its second \<^verbatim>\<open>if\<close>: the next vertex, when there is one.\<close>

definition ScanAll_produce :: "ScanAllCursor \<Rightarrow> frame \<Rightarrow> ScanAllCursor pull_result" where
  "ScanAll_produce c frame =
     (case scan_vertices c of
        Some (v # vs) \<Rightarrow>
          Inr (True, frame[scan_output_symbol c := VertexV v], c\<lparr> scan_vertices := Some vs \<rparr>)
      | _ \<Rightarrow> Inr (False, frame, c))"

definition ScanAllCursor_Pull :: "bool \<Rightarrow> ScanAllCursor \<Rightarrow> frame \<Rightarrow> ScanAllCursor pull_result" where
  "ScanAllCursor_Pull should_abort c frame =
     (if should_abort then Inl HintedAbortError
      else if scan_vertices c = None \<or> scan_vertices c = Some [] then
        (case scan_input_cursor c of
           [] \<Rightarrow> Inr (False, frame, c)
         | row # rest \<Rightarrow>
             ScanAll_produce
               (c\<lparr> scan_input_cursor := rest,
                   scan_vertices := Some (scan_get_vertices c row) \<rparr>) row)
      else ScanAll_produce c frame)"

text \<open>
  \<^verbatim>\<open>ScanAllByLabelPropertyValueCursor\<close>.  The vertices are those of the index for the value
  of the expression on the frame; the index \<^verbatim>\<open>db_.Vertices(label, property, value, ...)\<close> is
  outside the operator source and is the parameter \<open>db_Vertices\<close>, which may raise
  \<^verbatim>\<open>TypedValueException\<close>.  For a null value the cursor pulls again.
\<close>

record ScanAllByLabelPropertyValueCursor =
  scanv_output_symbol :: symbol
  scanv_expression :: expression
  scanv_input_cursor :: input_cursor
  scanv_vertices :: "vertex_accessor list option"

definition MakeScanAllByLabelPropertyValueCursor ::
  "symbol \<Rightarrow> expression \<Rightarrow> input_cursor \<Rightarrow> ScanAllByLabelPropertyValueCursor" where
  "MakeScanAllByLabelPropertyValueCursor output_symbol e inp =
     \<lparr> scanv_output_symbol = output_symbol, scanv_expression = e, scanv_input_cursor = inp,
       scanv_vertices = None \<rparr>"

definition ScanAllByLabelPropertyValue_produce ::
  "ScanAllByLabelPropertyValueCursor \<Rightarrow> frame \<Rightarrow> ScanAllByLabelPropertyValueCursor pull_result"
  where
  "ScanAllByLabelPropertyValue_produce c frame =
     (case scanv_vertices c of
        Some (v # vs) \<Rightarrow>
          Inr (True, frame[scanv_output_symbol c := VertexV v], c\<lparr> scanv_vertices := Some vs \<rparr>)
      | _ \<Rightarrow> Inr (False, frame, c))"

function ScanAllByLabelPropertyValueCursor_Pull ::
  "bool \<Rightarrow> (typed_value \<Rightarrow> query_error + vertex_accessor list) \<Rightarrow>
     ScanAllByLabelPropertyValueCursor \<Rightarrow> frame \<Rightarrow> ScanAllByLabelPropertyValueCursor pull_result"
  where
  "ScanAllByLabelPropertyValueCursor_Pull should_abort db_Vertices c frame =
     (if should_abort then Inl HintedAbortError
      else if scanv_vertices c = None \<or> scanv_vertices c = Some [] then
        (case scanv_input_cursor c of
           [] \<Rightarrow> Inr (False, frame, c)
         | row # rest \<Rightarrow>
             (case scanv_expression c row of
                Inl e \<Rightarrow> Inl e
              | Inr v \<Rightarrow>
                  if IsNull v
                  then ScanAllByLabelPropertyValueCursor_Pull should_abort db_Vertices
                         (c\<lparr> scanv_input_cursor := rest \<rparr>) row
                  else
                    (case db_Vertices v of
                       Inl e \<Rightarrow>
                         Inl (QueryRuntimeException '''{}' cannot be used as a property value.'')
                     | Inr vertices \<Rightarrow>
                         ScanAllByLabelPropertyValue_produce
                           (c\<lparr> scanv_input_cursor := rest, scanv_vertices := Some vertices \<rparr>)
                           row)))
      else ScanAllByLabelPropertyValue_produce c frame)"
  by pat_completeness auto

termination ScanAllByLabelPropertyValueCursor_Pull
  by (relation "measure (\<lambda>(a, d, c, frame). length (scanv_input_cursor c))") auto

declare ScanAllByLabelPropertyValueCursor_Pull.simps [simp del]

section \<open>Unwind\<close>

text \<open>
  \<^verbatim>\<open>Unwind::UnwindCursor\<close>.  \<^verbatim>\<open>input_value_\<close> and \<^verbatim>\<open>input_value_it_\<close> are kept together
  as the values not yet produced.  When the list of an input row is empty the cursor pulls again
  (``goto back to top'').
\<close>

record UnwindCursor =
  unw_input_expression :: expression
  unw_output_symbol :: symbol
  unw_input_cursor :: input_cursor
  unw_input_value :: "typed_value list"

definition MakeUnwindCursor :: "expression \<Rightarrow> symbol \<Rightarrow> input_cursor \<Rightarrow> UnwindCursor" where
  "MakeUnwindCursor e output_symbol inp =
     \<lparr> unw_input_expression = e, unw_output_symbol = output_symbol, unw_input_cursor = inp,
       unw_input_value = [] \<rparr>"

function UnwindCursor_Pull :: "bool \<Rightarrow> UnwindCursor \<Rightarrow> frame \<Rightarrow> UnwindCursor pull_result" where
  "UnwindCursor_Pull should_abort c frame =
     (if should_abort then Inl HintedAbortError
      else
        (case unw_input_value c of
           v # vs \<Rightarrow>
             Inr (True, frame[unw_output_symbol c := v], c\<lparr> unw_input_value := vs \<rparr>)
         | [] \<Rightarrow>
             (case unw_input_cursor c of
                [] \<Rightarrow> Inr (False, frame, c)
              | row # rest \<Rightarrow>
                  (case unw_input_expression c row of
                     Inl e \<Rightarrow> Inl e
                   | Inr (ListV []) \<Rightarrow>
                       UnwindCursor_Pull should_abort (c\<lparr> unw_input_cursor := rest \<rparr>) row
                   | Inr (ListV (v # vs)) \<Rightarrow>
                       Inr (True, row[unw_output_symbol c := v],
                            c\<lparr> unw_input_cursor := rest, unw_input_value := vs \<rparr>)
                   | Inr _ \<Rightarrow>
                       Inl (QueryRuntimeException
                              (''UNWIND only accepts list values, got '{}'' @ [CHR 0x27]))))))"
  by pat_completeness auto

termination UnwindCursor_Pull
  by (relation "measure (\<lambda>(a, c, frame). length (unw_input_cursor c))") auto

declare UnwindCursor_Pull.simps [simp del]

text \<open>
  For running the scans: the expression that reads a symbol, an index that holds vertex 7 for
  the value 2 and nothing else, and the vertices of a range for which only the frames with 2 at
  symbol 0 have a vertex.
\<close>

definition Identifier :: "symbol \<Rightarrow> expression" where
  "Identifier s frame = Inr (frame ! s)"

definition sample_index :: "typed_value \<Rightarrow> query_error + vertex_accessor list" where
  "sample_index v = (if v = IntV 2 then Inr [VertexAccessor 7] else Inr [])"

definition sample_range :: "frame \<Rightarrow> vertex_accessor list" where
  "sample_range frame = (if frame ! 0 = IntV 2 then [VertexAccessor 7] else [])"

section \<open>Properties of Skip and Limit\<close>

lemma Limit_keeps:
  "0 \<le> limit_limit c \<Longrightarrow>
     \<exists>b f' c'. LimitCursor_Pull c frame = Inr (b, f', c') \<and>
        limit_limit c' = limit_limit c \<and> limit_evaluations c' = limit_evaluations c"
  by (auto simp: LimitCursor_Pull_def Limit_evaluate_def Let_def split: if_splits prod.splits)

lemma Limit_first:
  "limit_limit c = - 1 \<Longrightarrow> limit_expression c frame = Inr (IntV n) \<Longrightarrow> 0 \<le> n \<Longrightarrow>
     \<exists>b f' c'. LimitCursor_Pull c frame = Inr (b, f', c') \<and> limit_limit c' = n \<and>
        limit_evaluations c' = Suc (limit_evaluations c)"
  by (auto simp: LimitCursor_Pull_def Limit_evaluate_def Let_def split: if_splits prod.splits)

lemma Limit_negative:
  "limit_limit c = - 1 \<Longrightarrow> limit_expression c frame = Inr (IntV n) \<Longrightarrow> n < 0 \<Longrightarrow>
     LimitCursor_Pull c frame =
       Inl (QueryRuntimeException ''Result of LIMIT expression must be greater or equal to zero'')"
  by (auto simp: LimitCursor_Pull_def Limit_evaluate_def Let_def split: if_splits prod.splits)

lemma Limit_not_int:
  "limit_limit c = - 1 \<Longrightarrow> limit_expression c frame = Inr v \<Longrightarrow> type_of v \<noteq> TInt \<Longrightarrow>
     LimitCursor_Pull c frame =
       Inl (QueryRuntimeException ''Result of LIMIT expression must be an int'')"
  by (auto simp: LimitCursor_Pull_def Limit_evaluate_def Let_def split: if_splits prod.splits)

lemma Skip_evaluate_known:
  "0 \<le> skip_to_skip c \<Longrightarrow> Skip_evaluate c row = Inr c"
  by (auto simp: Skip_evaluate_def)

lemma Skip_keeps_result:
  "0 \<le> skip_to_skip c \<Longrightarrow> SkipCursor_Pull c frame = Inr (b, f', c') \<Longrightarrow>
     skip_to_skip c' = skip_to_skip c \<and> skip_evaluations c' = skip_evaluations c"
proof (induction c frame rule: SkipCursor_Pull.induct)
  case (1 c frame)
  show ?case
  proof (cases "skip_input_cursor c")
    case Nil
    with "1.prems" show ?thesis by (simp add: SkipCursor_Pull.simps)
  next
    case (Cons row rest)
    let ?c1 = "c\<lparr> skip_input_cursor := rest \<rparr>"
    from "1.prems"(1) have ev: "Skip_evaluate ?c1 row = Inr ?c1"
      by (simp add: Skip_evaluate_known)
    show ?thesis
    proof (cases "skip_skipped c < skip_to_skip c")
      case True
      with Cons ev "1.prems" have
        "SkipCursor_Pull (?c1\<lparr> skip_skipped := skip_skipped ?c1 + 1 \<rparr>) row = Inr (b, f', c')"
        by (simp add: SkipCursor_Pull.simps[of c])
      with "1.IH"[OF Cons ev] True "1.prems"(1) show ?thesis by simp
    next
      case False
      with Cons ev "1.prems" show ?thesis
        by (auto simp: SkipCursor_Pull.simps[of c])
    qed
  qed
qed

lemma Skip_total:
  "0 \<le> skip_to_skip c \<Longrightarrow> \<exists>b f' c'. SkipCursor_Pull c frame = Inr (b, f', c')"
proof (induction c frame rule: SkipCursor_Pull.induct)
  case (1 c frame)
  show ?case
  proof (cases "skip_input_cursor c")
    case Nil
    then show ?thesis by (auto simp: SkipCursor_Pull.simps)
  next
    case (Cons row rest)
    let ?c1 = "c\<lparr> skip_input_cursor := rest \<rparr>"
    from "1.prems"(1) have ev: "Skip_evaluate ?c1 row = Inr ?c1"
      by (simp add: Skip_evaluate_known)
    show ?thesis
    proof (cases "skip_skipped c < skip_to_skip c")
      case True
      with "1.IH"[OF Cons ev] "1.prems" Cons ev show ?thesis
        by (simp add: SkipCursor_Pull.simps[of c])
    next
      case False
      with Cons ev show ?thesis
        by (auto simp: SkipCursor_Pull.simps[of c])
    qed
  qed
qed

lemma Skip_keeps:
  assumes "0 \<le> skip_to_skip c"
  shows "\<exists>b f' c'. SkipCursor_Pull c frame = Inr (b, f', c') \<and>
        skip_to_skip c' = skip_to_skip c \<and> skip_evaluations c' = skip_evaluations c"
proof -
  from Skip_total[OF assms] obtain b f' c' where r: "SkipCursor_Pull c frame = Inr (b, f', c')"
    by blast
  from Skip_keeps_result[OF assms r] r show ?thesis by blast
qed

lemma Skip_first:
  assumes "skip_to_skip c = - 1" "skip_input_cursor c = row # rest"
    "skip_expression c row = Inr (IntV n)" "0 \<le> n"
  shows "\<exists>b f' c'. SkipCursor_Pull c frame = Inr (b, f', c') \<and> skip_to_skip c' = n \<and>
        skip_evaluations c' = Suc (skip_evaluations c)"
proof -
  let ?c1 = "c\<lparr> skip_input_cursor := rest, skip_to_skip := n,
                  skip_evaluations := Suc (skip_evaluations c) \<rparr>"
  have ev: "Skip_evaluate (c\<lparr> skip_input_cursor := rest \<rparr>) row = Inr ?c1"
    using assms by (simp add: Skip_evaluate_def)
  show ?thesis
  proof (cases "skip_skipped c < n")
    case True
    let ?c2 = "?c1\<lparr> skip_skipped := skip_skipped c + 1 \<rparr>"
    have eq: "SkipCursor_Pull c frame = SkipCursor_Pull ?c2 row"
      using assms ev True by (simp add: SkipCursor_Pull.simps[of c])
    have n2: "0 \<le> skip_to_skip ?c2" using assms by simp
    from Skip_keeps[OF n2, of row] eq show ?thesis by simp
  next
    case False
    with assms ev show ?thesis by (auto simp: SkipCursor_Pull.simps[of c])
  qed
qed

lemma Skip_negative:
  "skip_to_skip c = - 1 \<Longrightarrow> skip_input_cursor c = row # rest \<Longrightarrow>
   skip_expression c row = Inr (IntV n) \<Longrightarrow> n < 0 \<Longrightarrow>
     SkipCursor_Pull c frame =
       Inl (QueryRuntimeException ''Result of SKIP expression must be greater or equal to zero'')"
  by (simp add: SkipCursor_Pull.simps[of c] Skip_evaluate_def)

lemma Skip_not_int:
  "skip_to_skip c = - 1 \<Longrightarrow> skip_input_cursor c = row # rest \<Longrightarrow>
   skip_expression c row = Inr v \<Longrightarrow> type_of v \<noteq> TInt \<Longrightarrow>
     SkipCursor_Pull c frame =
       Inl (QueryRuntimeException ''Result of SKIP expression must be an int'')"
  by (simp add: SkipCursor_Pull.simps[of c] Skip_evaluate_def)

lemma Skip_empty_input:
  "skip_input_cursor c = [] \<Longrightarrow> SkipCursor_Pull c frame = Inr (False, frame, c)"
  by (simp add: SkipCursor_Pull.simps[of c])

text \<open>
  C7, as the code has it.  Limit evaluates its expression in the first pull, before it pulls its
  input; Skip evaluates its expression after the first successful pull from its input, so not at
  all when the input is empty.  A non-negative integer is stored (one more evaluation counted),
  and once a count is stored a pull neither evaluates again nor changes it.  When the evaluated
  value is a negative integer, or is not an integer, the pull raises
  \<^verbatim>\<open>QueryRuntimeException\<close>.
\<close>

theorem Skip_Limit_bound_evaluation:
  "(limit_limit l = - 1 \<and> limit_expression l frame = Inr (IntV n) \<and> 0 \<le> n \<longrightarrow>
      (\<exists>b f' l'. LimitCursor_Pull l frame = Inr (b, f', l') \<and> limit_limit l' = n \<and>
         limit_evaluations l' = Suc (limit_evaluations l))) \<and>
   (0 \<le> limit_limit l \<longrightarrow>
      (\<exists>b f' l'. LimitCursor_Pull l frame = Inr (b, f', l') \<and> limit_limit l' = limit_limit l \<and>
         limit_evaluations l' = limit_evaluations l)) \<and>
   (limit_limit l = - 1 \<and> limit_expression l frame = Inr (IntV n) \<and> n < 0 \<longrightarrow>
      LimitCursor_Pull l frame =
        Inl (QueryRuntimeException
               ''Result of LIMIT expression must be greater or equal to zero'')) \<and>
   (limit_limit l = - 1 \<and> limit_expression l frame = Inr v \<and> type_of v \<noteq> TInt \<longrightarrow>
      LimitCursor_Pull l frame =
        Inl (QueryRuntimeException ''Result of LIMIT expression must be an int'')) \<and>
   (skip_input_cursor s = [] \<longrightarrow> SkipCursor_Pull s frame = Inr (False, frame, s)) \<and>
   (skip_to_skip s = - 1 \<and> skip_input_cursor s = row # rest \<and>
    skip_expression s row = Inr (IntV n) \<and> 0 \<le> n \<longrightarrow>
      (\<exists>b f' s'. SkipCursor_Pull s frame = Inr (b, f', s') \<and> skip_to_skip s' = n \<and>
         skip_evaluations s' = Suc (skip_evaluations s))) \<and>
   (0 \<le> skip_to_skip s \<longrightarrow>
      (\<exists>b f' s'. SkipCursor_Pull s frame = Inr (b, f', s') \<and> skip_to_skip s' = skip_to_skip s \<and>
         skip_evaluations s' = skip_evaluations s)) \<and>
   (skip_to_skip s = - 1 \<and> skip_input_cursor s = row # rest \<and>
    skip_expression s row = Inr (IntV n) \<and> n < 0 \<longrightarrow>
      SkipCursor_Pull s frame =
        Inl (QueryRuntimeException
               ''Result of SKIP expression must be greater or equal to zero'')) \<and>
   (skip_to_skip s = - 1 \<and> skip_input_cursor s = row # rest \<and>
    skip_expression s row = Inr v \<and> type_of v \<noteq> TInt \<longrightarrow>
      SkipCursor_Pull s frame =
        Inl (QueryRuntimeException ''Result of SKIP expression must be an int''))"
  using Limit_first[of l frame n] Limit_keeps[of l frame] Limit_negative[of l frame n]
    Limit_not_int[of l frame v] Skip_empty_input[of s frame] Skip_first[of s row rest n frame]
    Skip_keeps[of s frame] Skip_negative[of s row rest n frame]
    Skip_not_int[of s row rest v frame]
  by blast

text \<open>
  The theorem at a Limit and a Skip over one input row whose expression is the literal \<open>2\<close>
  (stored by the first pull), at the same cursors with the literal \<open>-1\<close> (the pull raises), and
  with the literal \<open>null\<close> (not an integer).
\<close>

theorem Skip_Limit_bound_evaluation_witness:
  "(\<exists>b f' l'. LimitCursor_Pull (MakeLimitCursor (Literal (IntV 2)) [[IntV 7]]) [Null] =
        Inr (b, f', l') \<and> limit_limit l' = 2 \<and> limit_evaluations l' = Suc 0) \<and>
   LimitCursor_Pull (MakeLimitCursor (Literal (IntV (- 1))) [[IntV 7]]) [Null] =
     Inl (QueryRuntimeException ''Result of LIMIT expression must be greater or equal to zero'') \<and>
   LimitCursor_Pull (MakeLimitCursor (Literal Null) [[IntV 7]]) [Null] =
     Inl (QueryRuntimeException ''Result of LIMIT expression must be an int'') \<and>
   (\<exists>b f' s'. SkipCursor_Pull (MakeSkipCursor (Literal (IntV 2)) [[IntV 7]]) [Null] =
        Inr (b, f', s') \<and> skip_to_skip s' = 2 \<and> skip_evaluations s' = Suc 0) \<and>
   SkipCursor_Pull (MakeSkipCursor (Literal (IntV (- 1))) [[IntV 7]]) [Null] =
     Inl (QueryRuntimeException ''Result of SKIP expression must be greater or equal to zero'') \<and>
   SkipCursor_Pull (MakeSkipCursor (Literal Null) [[IntV 7]]) [Null] =
     Inl (QueryRuntimeException ''Result of SKIP expression must be an int'')"
  using
    Skip_Limit_bound_evaluation[of "MakeLimitCursor (Literal (IntV 2)) [[IntV 7]]" "[Null]" 2
      Null "MakeSkipCursor (Literal (IntV 2)) [[IntV 7]]" "[IntV 7]" "[]"]
    Skip_Limit_bound_evaluation[of "MakeLimitCursor (Literal (IntV (- 1))) [[IntV 7]]" "[Null]"
      "- 1" Null "MakeSkipCursor (Literal (IntV (- 1))) [[IntV 7]]" "[IntV 7]" "[]"]
    Skip_Limit_bound_evaluation[of "MakeLimitCursor (Literal Null) [[IntV 7]]" "[Null]" 0
      Null "MakeSkipCursor (Literal Null) [[IntV 7]]" "[IntV 7]" "[]"]
  by (simp add: MakeLimitCursor_def MakeSkipCursor_def Literal_def)

text \<open>
  C7 as stated fails for Skip over an empty input: the expression is the literal \<open>-1\<close>, yet the
  first pull (and every later one) reports exhaustion, raises nothing and has evaluated nothing.
\<close>

theorem Skip_negative_bound_counterexample:
  "SkipCursor_Pull (MakeSkipCursor (Literal (IntV (- 1))) []) [Null] =
     Inr (False, [Null], MakeSkipCursor (Literal (IntV (- 1))) []) \<and>
   skip_evaluations (MakeSkipCursor (Literal (IntV (- 1))) []) = 0 \<and>
   Literal (IntV (- 1)) [Null] = Inr (IntV (- 1))"
  by (simp add: SkipCursor_Pull.simps MakeSkipCursor_def Literal_def)


section \<open>Properties of Aggregate\<close>

lemma length_place_values [simp]: "length (place_values syms vs frame) = length frame"
  by (induction syms vs frame rule: place_values.induct) auto

lemma place_values_other:
  "s \<notin> set syms \<Longrightarrow> place_values syms vs frame ! s = frame ! s"
  by (induction syms vs frame rule: place_values.induct) auto

lemma place_values_map:
  "distinct syms \<Longrightarrow> \<forall>s \<in> set syms. s < length frame \<Longrightarrow> x \<in> set xs \<Longrightarrow> syms = map k xs \<Longrightarrow>
     place_values syms (map v xs) frame ! k x = v x"
proof (induction xs arbitrary: syms frame)
  case Nil
  then show ?case by simp
next
  case (Cons a xs)
  then obtain syms' where s: "syms = k a # syms'" "syms' = map k xs" by auto
  show ?case
  proof (cases "x \<in> set xs")
    case True
    with Cons s show ?thesis by auto
  next
    case False
    with Cons.prems have xa: "x = a" by simp
    from Cons.prems s have "k a \<notin> set syms'" by simp
    with s xa Cons.prems show ?thesis
      by (simp add: place_values_other)
  qed
qed

lemma ProcessAll_empty:
  "agg_input_cursor c = [] \<Longrightarrow> agg_aggregation c = [] \<Longrightarrow> ProcessAll ops c frame = Inr (frame, c)"
  by (simp add: ProcessAll_def ProcessAll_input.simps)



lemma Aggregate_stays_exhausted:
  "agg_pulled_all_input c \<Longrightarrow> agg_aggregation_it c \<ge> length (agg_aggregation c) \<Longrightarrow>
     AggregateCursor_Pull ops c g = Inr (False, g, c)"
  by (simp add: AggregateCursor_Pull_def AggregateCursor_Pull_next_def)

text \<open>
  C5.  The cursor of an Aggregate over an input that produces no rows.  With a group-by
  expression the first pull reports exhaustion.  Without one the first pull produces a row: the
  output slot of every aggregation holds its default (\<open>0\<close> for a count, null for sum, average,
  minimum and maximum, the empty list or map for a collection), every remember slot holds null,
  and every later pull reports exhaustion.  The output and remember symbols are distinct slots
  of the frame.
\<close>

theorem Aggregate_empty_input:
  assumes "distinct (map elem_output_sym (aggregations self) @ remember self)"
      and "\<forall>s \<in> set (map elem_output_sym (aggregations self) @ remember self). s < length frame"
  shows "(group_by self \<noteq> [] \<longrightarrow>
            (\<exists>c'. AggregateCursor_Pull ops (MakeAggregateCursor self []) frame =
                     Inr (False, frame, c'))) \<and>
         (group_by self = [] \<longrightarrow>
            (\<exists>frame' c'.
               AggregateCursor_Pull ops (MakeAggregateCursor self []) frame = Inr (True, frame', c') \<and>
               (\<forall>e \<in> set (aggregations self).
                  frame' ! elem_output_sym e =
                    (if elem_op e = Op_COUNT then IntV 0
                     else if elem_op e \<in> {Op_SUM, Op_AVG, Op_MIN, Op_MAX} then Null
                     else if elem_op e = Op_COLLECT_LIST then ListV []
                     else MapV [])) \<and>
               (\<forall>s \<in> set (remember self). frame' ! s = Null) \<and>
               (\<forall>g. AggregateCursor_Pull ops c' g = Inr (False, g, c'))))"
proof (intro conjI impI)
  assume "group_by self \<noteq> []"
  then show "\<exists>c'. AggregateCursor_Pull ops (MakeAggregateCursor self []) frame =
                     Inr (False, frame, c')"
    by (simp add: AggregateCursor_Pull_def MakeAggregateCursor_def ProcessAll_empty
        AggregateCursor_Pull_next_def)
next
  assume g: "group_by self = []"
  let ?c2 = "(MakeAggregateCursor self [])\<lparr> agg_pulled_all_input := True, agg_aggregation_it := 0 \<rparr>"
  let ?outs = "map elem_output_sym (aggregations self)"
  let ?f2 = "place_values ?outs (map DefaultAggregationOpValue (aggregations self)) frame"
  let ?f3 = "place_values (remember self) (map (\<lambda>s. Null) (remember self)) ?f2"
  have pull: "AggregateCursor_Pull ops (MakeAggregateCursor self []) frame = Inr (True, ?f3, ?c2)"
    using g by (simp add: AggregateCursor_Pull_def MakeAggregateCursor_def ProcessAll_empty)
  have d1: "distinct ?outs" and d2: "distinct (remember self)"
    and d3: "set ?outs \<inter> set (remember self) = {}"
    using assms(1) by auto
  have r1: "\<forall>s \<in> set ?outs. s < length frame" and r2: "\<forall>s \<in> set (remember self). s < length ?f2"
    using assms(2) by auto
  have slots: "\<forall>e \<in> set (aggregations self).
       ?f3 ! elem_output_sym e = DefaultAggregationOpValue e"
  proof
    fix e assume e: "e \<in> set (aggregations self)"
    then have "elem_output_sym e \<notin> set (remember self)" using d3 by auto
    then have "?f3 ! elem_output_sym e = ?f2 ! elem_output_sym e"
      by (rule place_values_other)
    also have "\<dots> = DefaultAggregationOpValue e"
      using place_values_map[OF d1 r1 e refl, of DefaultAggregationOpValue] .
    finally show "?f3 ! elem_output_sym e = DefaultAggregationOpValue e" .
  qed
  have rem: "\<forall>s \<in> set (remember self). ?f3 ! s = Null"
  proof
    fix s assume s: "s \<in> set (remember self)"
    from place_values_map[OF d2 r2 s, of "\<lambda>x. x" "\<lambda>s. Null"] show "?f3 ! s = Null" by simp
  qed
  have stay: "\<forall>g. AggregateCursor_Pull ops ?c2 g = Inr (False, g, ?c2)"
    by (simp add: Aggregate_stays_exhausted MakeAggregateCursor_def)
  have dflt: "\<And>e. DefaultAggregationOpValue e =
                    (if elem_op e = Op_COUNT then IntV 0
                     else if elem_op e \<in> {Op_SUM, Op_AVG, Op_MIN, Op_MAX} then Null
                     else if elem_op e = Op_COLLECT_LIST then ListV []
                     else MapV [])"
    by (simp split: aggregation_op.splits)
  from pull slots rem stay show "\<exists>frame' c'.
               AggregateCursor_Pull ops (MakeAggregateCursor self []) frame = Inr (True, frame', c') \<and>
               (\<forall>e \<in> set (aggregations self).
                  frame' ! elem_output_sym e =
                    (if elem_op e = Op_COUNT then IntV 0
                     else if elem_op e \<in> {Op_SUM, Op_AVG, Op_MIN, Op_MAX} then Null
                     else if elem_op e = Op_COLLECT_LIST then ListV []
                     else MapV [])) \<and>
               (\<forall>s \<in> set (remember self). frame' ! s = Null) \<and>
               (\<forall>g. AggregateCursor_Pull ops c' g = Inr (False, g, c'))"
    unfolding dflt[symmetric] by blast
qed

text \<open>
  The theorem at an Aggregate with a count (slot 0), a sum (slot 1), a collected list (slot 2)
  and one remembered symbol (slot 3), over a frame of four slots: first without a group-by
  expression, then grouped by the literal \<open>1\<close>.
\<close>

theorem Aggregate_empty_input_witness:
  "(\<exists>frame' c'.
      AggregateCursor_Pull int_ops
        (MakeAggregateCursor
           \<lparr> aggregations =
               [\<lparr> elem_value = None, elem_key = None, elem_op = Op_COUNT, elem_output_sym = 0 \<rparr>,
                \<lparr> elem_value = Some (Literal (IntV 4)), elem_key = None, elem_op = Op_SUM,
                  elem_output_sym = 1 \<rparr>,
                \<lparr> elem_value = Some (Literal (IntV 4)), elem_key = None, elem_op = Op_COLLECT_LIST,
                  elem_output_sym = 2 \<rparr>],
             group_by = [], remember = [3] \<rparr> [])
        [IntV 9, IntV 9, IntV 9, IntV 9] = Inr (True, frame', c') \<and>
      frame' ! 0 = IntV 0 \<and> frame' ! 1 = Null \<and> frame' ! 2 = ListV [] \<and> frame' ! 3 = Null \<and>
      AggregateCursor_Pull int_ops c' frame' = Inr (False, frame', c')) \<and>
   (\<exists>c'.
      AggregateCursor_Pull int_ops
        (MakeAggregateCursor
           \<lparr> aggregations =
               [\<lparr> elem_value = None, elem_key = None, elem_op = Op_COUNT, elem_output_sym = 0 \<rparr>],
             group_by = [Literal (IntV 1)], remember = [3] \<rparr> [])
        [IntV 9, IntV 9, IntV 9, IntV 9] = Inr (False, [IntV 9, IntV 9, IntV 9, IntV 9], c'))"
proof -
  let ?count = "\<lparr> elem_value = None, elem_key = None, elem_op = Op_COUNT, elem_output_sym = 0 \<rparr>"
  let ?sum = "\<lparr> elem_value = Some (Literal (IntV 4)), elem_key = None, elem_op = Op_SUM,
                 elem_output_sym = 1 \<rparr>"
  let ?collect = "\<lparr> elem_value = Some (Literal (IntV 4)), elem_key = None,
                     elem_op = Op_COLLECT_LIST, elem_output_sym = 2 \<rparr>"
  let ?plain = "\<lparr> aggregations = [?count, ?sum, ?collect], group_by = [], remember = [3] \<rparr>"
  let ?grouped = "\<lparr> aggregations = [?count], group_by = [Literal (IntV 1)], remember = [3] \<rparr>"
  let ?frame = "[IntV 9, IntV 9, IntV 9, IntV 9]"
  have d1: "distinct (map elem_output_sym (aggregations ?plain) @ remember ?plain)" by simp
  have r1: "\<forall>s \<in> set (map elem_output_sym (aggregations ?plain) @ remember ?plain).
              s < length ?frame" by simp
  have d2: "distinct (map elem_output_sym (aggregations ?grouped) @ remember ?grouped)" by simp
  have r2: "\<forall>s \<in> set (map elem_output_sym (aggregations ?grouped) @ remember ?grouped).
              s < length ?frame" by simp
  from Aggregate_empty_input[OF d1 r1, of int_ops] Aggregate_empty_input[OF d2 r2, of int_ops]
  show ?thesis by fastforce
qed


section \<open>Properties of Delete\<close>





lemma delete_vertices_not_deletable:
  "\<exists>v \<in> set results. \<not> deletable v \<Longrightarrow>
     \<exists>msg. delete_vertices removable detach results db = Inl (QueryRuntimeException msg)"
  by (induction removable detach results db rule: delete_vertices.induct)
     (auto simp: deletable_def)







text \<open>
  C10 as stated fails for a vertex followed by a string, without \<^verbatim>\<open>DETACH\<close>, on a storage
  that refuses to remove the vertex: the string is neither a vertex, an edge nor null, and the
  pull raises the refusal, not ``Can only delete edges and vertices''.
\<close>

theorem Delete_message_counterexample:
  "\<not> deletable (StringV ''x'') \<and>
   DeleteCursor_Pull (\<lambda>d va. False)
      \<lparr> del_expressions = [Literal (VertexV (VertexAccessor 1)), Literal (StringV ''x'')],
        del_detach = False, del_input_cursor = [[Null]] \<rparr> [] [Null] =
     Inl (QueryRuntimeException
       ''Failed to remove vertex because of it's existing connections. Consider using DETACH DELETE.'') \<and>
   DeleteCursor_Pull (\<lambda>d va. False)
      \<lparr> del_expressions = [Literal (VertexV (VertexAccessor 1)), Literal (StringV ''x'')],
        del_detach = False, del_input_cursor = [[Null]] \<rparr> [] [Null] \<noteq>
     Inl (QueryRuntimeException ''Can only delete edges and vertices'')"
  by (simp add: DeleteCursor_Pull_def Literal_def deletable_def)


section \<open>Properties of variable-length expansion\<close>

lemma found_existing_map:
  "found_existing e (map EdgeV es) = Inr (e_address e \<in> e_address ` set es)"
  by (induction es) auto

lemma unique_edges_iff:
  "unique_edges xs \<longleftrightarrow> (\<exists>es. xs = map EdgeV es \<and> distinct (map e_address es))"
proof (induction xs rule: unique_edges.induct)
  case 1
  then show ?case by simp
next
  case (2 e rest)
  show ?case
  proof
    assume "unique_edges (EdgeV e # rest)"
    then have f: "found_existing e rest = Inr False" and u: "unique_edges rest" by simp_all
    from u 2 have "\<exists>es. rest = map EdgeV es \<and> distinct (map e_address es)" by simp
    then obtain es where es: "rest = map EdgeV es" "distinct (map e_address es)"
      by (elim exE conjE)
    with f have "e_address e \<notin> e_address ` set es" by (simp add: found_existing_map)
    with es have "EdgeV e # rest = map EdgeV (e # es) \<and> distinct (map e_address (e # es))"
      by simp
    then show "\<exists>es. EdgeV e # rest = map EdgeV es \<and> distinct (map e_address es)"
      by (rule exI[where x = "e # es"])
  next
    assume "\<exists>es. EdgeV e # rest = map EdgeV es \<and> distinct (map e_address es)"
    then obtain es where es: "EdgeV e # rest = map EdgeV es" "distinct (map e_address es)"
      by (elim exE conjE)
    then obtain es' where es': "es = e # es'" "rest = map EdgeV es'" by (cases es) auto
    with es 2 have "unique_edges rest" by auto
    moreover from es es' have "found_existing e rest = Inr False"
      by (simp add: found_existing_map)
    ultimately show "unique_edges (EdgeV e # rest)" by simp
  qed
qed (auto simp: map_eq_Cons_conv)

lemma unique_edges_take: "unique_edges xs \<Longrightarrow> unique_edges (take k xs)"
  unfolding unique_edges_iff
  by (metis distinct_take take_map)

lemma unique_edges_drop: "unique_edges xs \<Longrightarrow> unique_edges (drop k xs)"
  unfolding unique_edges_iff
  by (metis distinct_drop drop_map)

lemma unique_edges_AppendEdge:
  assumes "unique_edges xs" "found_existing e xs = Inr False"
  shows "unique_edges (AppendEdge r n e xs)"
proof -
  from assms(1) have "\<exists>es. xs = map EdgeV es \<and> distinct (map e_address es)"
    by (simp add: unique_edges_iff)
  then obtain es where es: "xs = map EdgeV es" "distinct (map e_address es)"
    by (elim exE conjE)
  with assms(2) have notin: "e_address e \<notin> e_address ` set es"
    by (simp add: found_existing_map)
  define keep where "keep = min (length xs) (if n = 0 then length xs else n - 1)"
  have a: "AppendEdge r n e xs =
     (if r then EdgeV e # drop (length xs - keep) xs else take keep xs @ [EdgeV e])"
    by (simp add: AppendEdge_def keep_def Let_def)
  show ?thesis
  proof (cases r)
    case True
    let ?es' = "e # drop (length xs - keep) es"
    have "AppendEdge r n e xs = map EdgeV ?es'" using a True es by (simp add: drop_map)
    moreover have "distinct (map e_address ?es')"
      using es(2) notin by (auto simp: drop_map[symmetric] dest: in_set_dropD)
    ultimately show ?thesis unfolding unique_edges_iff by (intro exI[where x = ?es']) simp
  next
    case False
    let ?es' = "take keep es @ [e]"
    have "AppendEdge r n e xs = map EdgeV ?es'" using a False es by (simp add: take_map)
    moreover have "distinct (map e_address ?es')"
      using es(2) notin by (auto simp: take_map[symmetric] dest: in_set_takeD)
    ultimately show ?thesis unfolding unique_edges_iff by (intro exI[where x = ?es']) simp
  qed
qed

lemma good_frame_update_other:
  "good_frame self frame \<Longrightarrow> s \<noteq> edge_symbol self \<Longrightarrow> good_frame self (frame[s := v])"
  by (simp add: good_frame_def)

lemma good_frame_update_edges:
  "edge_symbol self < length frame \<Longrightarrow> unique_edges xs \<Longrightarrow>
     good_frame self (frame[edge_symbol self := ListV xs])"
  by (simp add: good_frame_def)

lemma HandleExistingNode_good:
  "HandleExistingNode self v frame = Inr (b, frame') \<Longrightarrow> good_frame self frame \<Longrightarrow>
     edge_symbol self \<noteq> node_symbol self \<Longrightarrow> good_frame self frame'"
  by (auto simp: HandleExistingNode_def Let_def good_frame_def
      split: if_splits sum.splits typed_value.splits)

lemma Expand_accept_good:
  "good_frame (ev_self c) frame \<Longrightarrow>
     step_good (ev_self c) (ev_input_cursor c) (Expand_accept g c e v xs frame)"
  by (simp add: Expand_accept_def step_good_def stack_inv_def Let_def)

lemma Expand_edge_good:
  assumes apart: "symbols_apart (ev_self c)"
      and len: "edge_symbol (ev_self c) < length frame"
      and uniq: "unique_edges xs"
  shows "step_good (ev_self c) (ev_input_cursor c) (Expand_edge g c ce xs (frame[edge_symbol (ev_self c) := ListV xs]))"
proof -
  let ?self = "ev_self c"
  let ?frame = "frame[edge_symbol ?self := ListV xs]"
  have g0: "good_frame ?self ?frame" using len uniq by (simp add: good_frame_update_edges)
  show ?thesis
  proof (cases "found_existing (fst ce) xs")
    case (Inl e)
    then show ?thesis by (simp add: Expand_edge_def step_good_def)
  next
    case (Inr found)
    show ?thesis
    proof (cases found)
      case True
      with Inr g0 show ?thesis by (simp add: Expand_edge_def step_good_def stack_inv_def)
    next
      case False
      let ?xs' = "AppendEdge (is_reverse ?self) (length (ev_edges c)) (fst ce) xs"
      let ?frame1 = "?frame[edge_symbol ?self := ListV ?xs']"
      let ?v = "if snd ce = IN then e_from (fst ce) else e_to (fst ce)"
      from Inr False uniq have u': "unique_edges ?xs'" by (simp add: unique_edges_AppendEdge)
      with len have g1: "good_frame ?self ?frame1" by (simp add: good_frame_update_edges)
      show ?thesis
      proof (cases "HandleExistingNode ?self ?v ?frame1")
        case (Inl e)
        with Inr False show ?thesis by (simp add: Expand_edge_def step_good_def Let_def)
      next
        case hr: (Inr res)
        obtain b frame2 where res: "res = (b, frame2)" by (cases res)
        from hr res g1 apart have g2: "good_frame ?self frame2"
          by (auto simp: symbols_apart_def dest: HandleExistingNode_good)
        let ?frame4 = "frame2[inner_edge_symbol ?self := EdgeV (fst ce),
                              inner_node_symbol ?self := VertexV ?v]"
        from g2 apart have g4: "good_frame ?self ?frame4"
          by (simp add: symbols_apart_def good_frame_update_other)
        show ?thesis
        proof (cases b)
          case bF: False
          with Inr False hr res g2 show ?thesis
            by (simp add: Expand_edge_def step_good_def Let_def stack_inv_def)
        next
          case bT: True
          show ?thesis
          proof (cases "filter_expression ?self")
            case None
            with Inr False hr res bT Expand_accept_good[OF g4, of g "fst ce" ?v ?xs']
            show ?thesis by (simp add: Expand_edge_def Let_def)
          next
            case (Some fe)
            show ?thesis
            proof (cases "EvaluateFilter fe ?frame4")
              case (Inl e)
              with Inr False hr res bT Some show ?thesis
                by (simp add: Expand_edge_def Let_def step_good_def)
            next
              case fr: (Inr pass)
              show ?thesis
              proof (cases pass)
                case True
                with Inr False hr res bT Some fr Expand_accept_good[OF g4, of g "fst ce" ?v ?xs']
                show ?thesis by (simp add: Expand_edge_def Let_def)
              next
                case pF: False
                with Inr \<open>\<not> found\<close> hr res bT Some fr g4 show ?thesis
                  by (simp add: Expand_edge_def Let_def step_good_def stack_inv_def)
              qed
            qed
          qed
        qed
      qed
    qed
  qed
qed

lemma pop_exhausted_cases:
  "pop_exhausted stack = [] \<or> (\<exists>ce remaining below. pop_exhausted stack = (ce # remaining) # below)"
  by (induction stack rule: pop_exhausted.induct) auto

lemma pop_exhausted_nonempty: "pop_exhausted stack \<noteq> [] \<Longrightarrow> stack \<noteq> []"
  by (cases stack) auto

lemma Expand_step_good:
  assumes apart: "symbols_apart (ev_self c)" and inv: "stack_inv c frame"
  shows "step_good (ev_self c) (ev_input_cursor c) (Expand_step g c frame)"
proof -
  from pop_exhausted_cases[of "ev_edges c"] show ?thesis
  proof
    assume "pop_exhausted (ev_edges c) = []"
    then show ?thesis by (simp add: Expand_step_def step_good_def stack_inv_def)
  next
    assume "\<exists>ce remaining below. pop_exhausted (ev_edges c) = (ce # remaining) # below"
    then obtain ce remaining below where
      p: "pop_exhausted (ev_edges c) = (ce # remaining) # below" by (elim exE)
    then have "ev_edges c \<noteq> []" by (auto dest: pop_exhausted_nonempty)
    with inv have good: "good_frame (ev_self c) frame" by (simp add: stack_inv_def)
    then obtain xs where xs: "frame ! edge_symbol (ev_self c) = ListV xs" "unique_edges xs"
      and len: "edge_symbol (ev_self c) < length frame"
      by (auto simp: good_frame_def split: typed_value.splits)
    let ?c1 = "c\<lparr> ev_edges := remaining # below \<rparr>"
    let ?keep = "min (length xs) (Suc (length below))"
    let ?xs' = "if is_reverse (ev_self c) then drop (length xs - ?keep) xs else take ?keep xs"
    have u: "unique_edges ?xs'" using xs(2) by (simp add: unique_edges_take unique_edges_drop)
    have "step_good (ev_self ?c1) (ev_input_cursor ?c1)
            (Expand_edge g ?c1 ce ?xs' (frame[edge_symbol (ev_self ?c1) := ListV ?xs']))"
      by (rule Expand_edge_good) (use apart len u in simp_all)
    with p xs show ?thesis by (simp add: Expand_step_def Let_def)
  qed
qed

lemma Expand_good:
  "symbols_apart (ev_self c) \<Longrightarrow> stack_inv c frame \<Longrightarrow>
   Expand n g c frame = Some (Inr (b, frame', c')) \<Longrightarrow>
     ev_self c' = ev_self c \<and> ev_input_cursor c' = ev_input_cursor c \<and> stack_inv c' frame' \<and>
     (if b then good_frame (ev_self c) frame' else ev_edges c' = [])"
proof (induction n arbitrary: c frame)
  case 0
  then show ?case by simp
next
  case (Suc n)
  from Expand_step_good[OF Suc.prems(1,2), of g] have
    sg: "step_good (ev_self c) (ev_input_cursor c) (Expand_step g c frame)" .
  show ?case
  proof (cases "Expand_step g c frame")
    case (Return r)
    with Suc.prems(3) sg show ?thesis by (simp add: step_good_def)
  next
    case (Continue c1 frame1)
    with sg have s1: "ev_self c1 = ev_self c" "ev_input_cursor c1 = ev_input_cursor c"
      "stack_inv c1 frame1" by (simp_all add: step_good_def)
    from Continue Suc.prems(3) have "Expand n g c1 frame1 = Some (Inr (b, frame', c'))" by simp
    from Suc.IH[OF _ s1(3) this] Suc.prems(1) s1 show ?thesis by (auto split: if_splits)
  qed
qed

lemma PullInput_vertex_good:
  "edge_symbol (ev_self c) < length row \<Longrightarrow> PullInput_vertex g c v row = Inr (b, frame', c') \<Longrightarrow>
     b \<and> good_frame (ev_self c) frame' \<and> ev_self c' = ev_self c \<and>
     ev_input_cursor c' = ev_input_cursor c"
  by (auto simp: PullInput_vertex_def good_frame_def split: option.splits sum.splits prod.splits)

lemma PullInput_loop_good:
  "\<forall>row \<in> set rows. edge_symbol (ev_self c) < length row \<Longrightarrow>
   PullInput_loop g c rows frame = Inr (b, frame', c') \<Longrightarrow>
     ev_self c' = ev_self c \<and> set (ev_input_cursor c') \<subseteq> set rows \<and>
     (\<not> b \<longrightarrow> ev_edges c' = ev_edges c) \<and>
     (b \<longrightarrow> good_frame (ev_self c) frame')"
proof (induction rows arbitrary: frame)
  case Nil
  then show ?case by auto
next
  case (Cons row rest)
  show ?case
  proof (cases "IsNull (row ! input_symbol (ev_self c))")
    case True
    with Cons.prems(2) have "PullInput_loop g c rest row = Inr (b, frame', c')" by simp
    from Cons.IH[OF _ this] Cons.prems(1) show ?thesis by auto
  next
    case False
    with Cons.prems(2) obtain v where
      pv: "PullInput_vertex g (c\<lparr> ev_input_cursor := rest \<rparr>) v row = Inr (b, frame', c')"
      by (auto simp: Let_def split: sum.splits typed_value.splits)
    from Cons.prems(1) have "edge_symbol (ev_self (c\<lparr> ev_input_cursor := rest \<rparr>)) < length row"
      by simp
    from PullInput_vertex_good[OF this pv] show ?thesis by auto
  qed
qed

lemma Pull_start_good:
  "Pull_start c frame = Inr (b, frame') \<Longrightarrow> good_frame (ev_self c) frame \<Longrightarrow>
   symbols_apart (ev_self c) \<Longrightarrow> good_frame (ev_self c) frame'"
  by (auto simp: Pull_start_def symbols_apart_def split: if_splits typed_value.splits
      dest: HandleExistingNode_good)

lemma Pull_good:
  "symbols_apart (ev_self c) \<Longrightarrow> stack_inv c frame \<Longrightarrow>
   \<forall>row \<in> set (ev_input_cursor c). edge_symbol (ev_self c) < length row \<Longrightarrow>
   ExpandVariableCursor_Pull n g c frame = Some (Inr (b, frame', c')) \<Longrightarrow>
     ev_self c' = ev_self c \<and> set (ev_input_cursor c') \<subseteq> set (ev_input_cursor c) \<and>
     stack_inv c' frame' \<and> (b \<longrightarrow> good_frame (ev_self c) frame')"
proof (induction n arbitrary: c frame)
  case 0
  then show ?case by simp
next
  case (Suc n)
  from Suc.prems(4) obtain r where ex: "Expand (Suc n) g c frame = Some r"
    by (cases "Expand (Suc n) g c frame") auto
  show ?case
  proof (cases r)
    case (Inl e)
    with ex Suc.prems(4) show ?thesis by simp
  next
    case (Inr res)
    obtain b1 frame1 c1 where res: "res = (b1, frame1, c1)" by (cases res)
    from Expand_good[OF Suc.prems(1,2), of "Suc n" g b1 frame1 c1] ex Inr res
    have e1: "ev_self c1 = ev_self c" "ev_input_cursor c1 = ev_input_cursor c"
      "stack_inv c1 frame1" "if b1 then good_frame (ev_self c) frame1 else ev_edges c1 = []"
      by simp_all
    show ?thesis
    proof (cases b1)
      case True
      with ex Inr res Suc.prems(4) e1 show ?thesis by auto
    next
      case False
      with e1 have empty: "ev_edges c1 = []" by simp
      from Suc.prems(3) e1 have rows1:
        "\<forall>row \<in> set (ev_input_cursor c1). edge_symbol (ev_self c1) < length row" by simp
      show ?thesis
      proof (cases "PullInput g c1 frame1")
        case (Inl e)
        with ex Inr res False Suc.prems(4) show ?thesis by simp
      next
        case pi: (Inr res2)
        obtain b2 frame2 c2 where res2: "res2 = (b2, frame2, c2)" by (cases res2)
        from PullInput_loop_good[OF rows1, of g frame1 b2 frame2 c2] pi res2
        have p2: "ev_self c2 = ev_self c1" "set (ev_input_cursor c2) \<subseteq> set (ev_input_cursor c1)"
          "\<not> b2 \<longrightarrow> ev_edges c2 = ev_edges c1" "b2 \<longrightarrow> good_frame (ev_self c1) frame2"
          by (simp_all add: PullInput_def)
        show ?thesis
        proof (cases b2)
          case b2F: False
          with ex Inr res False pi res2 Suc.prems(4) p2 e1 empty show ?thesis
            by (auto simp: stack_inv_def)
        next
          case b2T: True
          with p2 e1 have g2: "good_frame (ev_self c2) frame2" by simp
          show ?thesis
          proof (cases "Pull_start c2 frame2")
            case (Inl e)
            with ex Inr res False pi res2 b2T Suc.prems(4) show ?thesis by simp
          next
            case ps: (Inr res3)
            obtain b3 frame3 where res3: "res3 = (b3, frame3)" by (cases res3)
            from Suc.prems(1) p2 e1 have apart2: "symbols_apart (ev_self c2)" by simp
            from Pull_start_good[OF _ g2 apart2] ps res3
            have g3: "good_frame (ev_self c2) frame3" by simp
            show ?thesis
            proof (cases b3)
              case True
              with ex Inr res False pi res2 b2T ps res3 Suc.prems(4) g3 p2 e1 show ?thesis
                by (auto simp: stack_inv_def)
            next
              case b3F: False
              with ex Inr res \<open>\<not> b1\<close> pi res2 b2T ps res3 Suc.prems(4)
              have rec: "ExpandVariableCursor_Pull n g c2 frame3 = Some (Inr (b, frame', c'))"
                by simp
              have inv3: "stack_inv c2 frame3" using g3 by (simp add: stack_inv_def)
              have rows2: "\<forall>row \<in> set (ev_input_cursor c2). edge_symbol (ev_self c2) < length row"
                using rows1 p2 by auto
              from Suc.IH[OF apart2 inv3 rows2 rec] p2 e1 show ?thesis by auto
            qed
          qed
        qed
      qed
    qed
  qed
qed

lemma Pull_rows_good:
  "symbols_apart (ev_self c) \<Longrightarrow> stack_inv c frame \<Longrightarrow>
   \<forall>row \<in> set (ev_input_cursor c). edge_symbol (ev_self c) < length row \<Longrightarrow>
     \<forall>row \<in> set (Pull_rows k n g c frame). good_frame (ev_self c) row"
proof (induction k arbitrary: c frame)
  case 0
  then show ?case by simp
next
  case (Suc k)
  show ?case
  proof (cases "ExpandVariableCursor_Pull n g c frame")
    case None
    then show ?thesis by simp
  next
    case (Some r)
    show ?thesis
    proof (cases r)
      case (Inl e)
      with Some show ?thesis by simp
    next
      case (Inr res)
      obtain b frame' c' where res: "res = (b, frame', c')" by (cases res)
      show ?thesis
      proof (cases b)
        case False
        with Some Inr res show ?thesis by simp
      next
        case True
        from Pull_good[OF Suc.prems, of n g b frame' c'] Some Inr res True
        have p: "ev_self c' = ev_self c" "set (ev_input_cursor c') \<subseteq> set (ev_input_cursor c)"
          "stack_inv c' frame'" "good_frame (ev_self c) frame'" by simp_all
        from Suc.prems p have a': "symbols_apart (ev_self c')"
          and r': "\<forall>row \<in> set (ev_input_cursor c'). edge_symbol (ev_self c') < length row"
          by auto
        from Suc.IH[OF a' p(3) r'] p Some Inr res True show ?thesis by simp
      qed
    qed
  qed
qed

lemma PullInput_loop_input:
  "PullInput_loop g (c\<lparr> ev_input_cursor := x \<rparr>) rows frame = PullInput_loop g c rows frame"
  by (induction rows arbitrary: frame)
     (simp_all add: Let_def split: sum.splits typed_value.splits)

lemma InitEdges_loop_input:
  "InitEdges_loop g (c\<lparr> ex_input_cursor := x \<rparr>) rows frame = InitEdges_loop g c rows frame"
  by (induction rows arbitrary: frame)
     (simp_all add: Let_def split: sum.splits typed_value.splits)

lemma InitEdges_loop_nulls:
  "\<forall>r \<in> set rows. IsNull (r ! input_symbol (ex_self c)) \<Longrightarrow>
     InitEdges_loop g c rows frame = Inr (False, last (frame # rows), c\<lparr> ex_input_cursor := [] \<rparr>)"
  by (induction rows arbitrary: frame) simp_all

lemma PullInput_loop_nulls:
  "\<forall>r \<in> set rows. IsNull (r ! input_symbol (ev_self c)) \<Longrightarrow>
     PullInput_loop g c rows frame = Inr (False, last (frame # rows), c\<lparr> ev_input_cursor := [] \<rparr>)"
  by (induction rows arbitrary: frame) simp_all

lemma Expand_empty_stack:
  "ev_edges c = [] \<Longrightarrow> Expand (Suc n) g c frame = Some (Inr (False, frame, c))"
  by (simp add: Expand_step_def)

lemma Pull_skips_null:
  assumes "ev_edges d = []" "IsNull (row ! input_symbol (ev_self d))"
  shows "ExpandVariableCursor_Pull n g (d\<lparr> ev_input_cursor := row # rest \<rparr>) frame =
         ExpandVariableCursor_Pull n g (d\<lparr> ev_input_cursor := rest \<rparr>) row"
proof (cases n)
  case 0
  then show ?thesis by simp
next
  case (Suc m)
  let ?d1 = "d\<lparr> ev_input_cursor := row # rest \<rparr>" and ?d2 = "d\<lparr> ev_input_cursor := rest \<rparr>"
  have e1: "Expand (Suc m) g ?d1 frame = Some (Inr (False, frame, ?d1))"
    by (rule Expand_empty_stack) (simp add: assms(1))
  have e2: "Expand (Suc m) g ?d2 row = Some (Inr (False, row, ?d2))"
    by (rule Expand_empty_stack) (simp add: assms(1))
  have "PullInput g ?d1 frame = PullInput_loop g ?d1 rest row"
    using assms(2) by (simp add: PullInput_def)
  also have "\<dots> = PullInput_loop g d rest row" by (rule PullInput_loop_input)
  also have "\<dots> = PullInput g ?d2 row" by (simp add: PullInput_def PullInput_loop_input)
  finally have "PullInput g ?d1 frame = PullInput g ?d2 row" .
  with e1 e2 Suc show ?thesis by (simp del: Expand.simps)
qed

text \<open>
  C4.  Every row that the depth-first cursor produces, from its first pull on, holds at the edge
  symbol a list of edges in which no edge (compared by address) occurs twice; and an edge that
  is found among the edges on the frame is skipped: the round ends without appending it.  The
  edge symbol is a slot of every input row and differs from the node symbol and the two inner
  symbols of the filter lambda.
\<close>

theorem variable_expansion_edges_unique:
  assumes "symbols_apart self" and "\<forall>row \<in> set inp. edge_symbol self < length row"
  shows "(\<forall>row \<in> set (Pull_rows k n g (MakeExpandVariableCursor self inp) frame).
            \<exists>es. row ! edge_symbol self = ListV (map EdgeV es) \<and> distinct (map e_address es)) \<and>
         (\<forall>c current_edge edges_on_frame f.
            found_existing (fst current_edge) edges_on_frame = Inr True \<longrightarrow>
            Expand_edge g c current_edge edges_on_frame f = Continue c f)"
proof
  let ?c = "MakeExpandVariableCursor self inp"
  have s: "ev_self ?c = self" "ev_input_cursor ?c = inp" "stack_inv ?c frame"
    by (simp_all add: MakeExpandVariableCursor_def stack_inv_def)
  from Pull_rows_good[where c = ?c and frame = frame and k = k and n = n and g = g] assms s
  have good: "\<forall>row \<in> set (Pull_rows k n g ?c frame). good_frame self row" by simp
  show "\<forall>row \<in> set (Pull_rows k n g ?c frame).
            \<exists>es. row ! edge_symbol self = ListV (map EdgeV es) \<and> distinct (map e_address es)"
  proof
    fix row assume "row \<in> set (Pull_rows k n g ?c frame)"
    with good have "good_frame self row" by simp
    then obtain xs where xs: "row ! edge_symbol self = ListV xs" "unique_edges xs"
      by (auto simp: good_frame_def split: typed_value.splits)
    from xs(2) have "\<exists>es. xs = map EdgeV es \<and> distinct (map e_address es)"
      by (simp add: unique_edges_iff)
    then obtain es where "xs = map EdgeV es" "distinct (map e_address es)"
      by (elim exE conjE)
    with xs(1) have "row ! edge_symbol self = ListV (map EdgeV es) \<and> distinct (map e_address es)"
      by simp
    then show "\<exists>es. row ! edge_symbol self = ListV (map EdgeV es) \<and> distinct (map e_address es)"
      by (rule exI[where x = es])
  qed
next
  show "\<forall>c current_edge edges_on_frame f.
            found_existing (fst current_edge) edges_on_frame = Inr True \<longrightarrow>
            Expand_edge g c current_edge edges_on_frame f = Continue c f"
    by (simp add: Expand_edge_def)
qed

text \<open>
  The theorem on the sample graph with bounds 1 and 5.  From vertex 1 the cursor produces the
  path of edge 10 and the path of edges 10 and 11, and nothing else: edge 10 is not taken again.
\<close>

theorem variable_expansion_edges_unique_witness:
  "symbols_apart (sample_expansion 1 5) \<and>
   map (\<lambda>row. row ! 2)
     (Pull_rows 3 20 sample_graph
        (MakeExpandVariableCursor (sample_expansion 1 5) [sample_row]) []) =
     [ListV [EdgeV sample_edge_1], ListV [EdgeV sample_edge_1, EdgeV sample_edge_2]] \<and>
   list_all (\<lambda>row. \<exists>es. row ! 2 = ListV (map EdgeV es) \<and> distinct (map e_address es))
     (Pull_rows 3 20 sample_graph
        (MakeExpandVariableCursor (sample_expansion 1 5) [sample_row]) [])"
proof -
  have apart: "symbols_apart (sample_expansion 1 5)"
    by (simp add: symbols_apart_def sample_expansion_def)
  have slots: "\<forall>row \<in> set [sample_row]. edge_symbol (sample_expansion 1 5) < length row"
    by (simp add: sample_expansion_def sample_row_def)
  have rows: "map (\<lambda>row. row ! 2)
     (Pull_rows 3 20 sample_graph
        (MakeExpandVariableCursor (sample_expansion 1 5) [sample_row]) []) =
     [ListV [EdgeV sample_edge_1], ListV [EdgeV sample_edge_1, EdgeV sample_edge_2]]"
    by code_simp
  have sym: "edge_symbol (sample_expansion 1 5) = 2" by (simp add: sample_expansion_def)
  from variable_expansion_edges_unique[OF apart slots, of 3 20 sample_graph "[]"]
  have "list_all (\<lambda>row. \<exists>es. row ! 2 = ListV (map EdgeV es) \<and> distinct (map e_address es))
     (Pull_rows 3 20 sample_graph
        (MakeExpandVariableCursor (sample_expansion 1 5) [sample_row]) [])"
    unfolding sym list_all_iff by (rule conjunct1)
  with apart rows show ?thesis by simp
qed


lemma InitEdges_loop_not_vertex:
  "\<not> IsNull (row ! input_symbol (ex_self c)) \<Longrightarrow>
   type_of (row ! input_symbol (ex_self c)) \<noteq> TVertex \<Longrightarrow>
     InitEdges_loop g c (row # rest) frame =
       Inl (QueryRuntimeException ''Expected a {} for '{}', but got {}.'')"
  by (simp add: ExpectType_def)

lemma PullInput_loop_not_vertex:
  "\<not> IsNull (row ! input_symbol (ev_self c)) \<Longrightarrow>
   type_of (row ! input_symbol (ev_self c)) \<noteq> TVertex \<Longrightarrow>
     PullInput_loop g c (row # rest) frame =
       Inl (QueryRuntimeException ''Expected a {} for '{}', but got {}.'')"
  by (simp add: ExpectType_def)

text \<open>
  C9.  \<^verbatim>\<open>InitEdges\<close> of Expand and \<^verbatim>\<open>PullInput\<close> of variable-length expansion over an
  input row whose input symbol holds null: the row is skipped, that is, the call does what it
  does on the following rows alone, and over null rows only it reports exhaustion without an
  exception.  A pull of the depth-first cursor that has nothing left to expand skips the row in
  the same way.  A value that is neither null nor a vertex raises the type error of
  \<^verbatim>\<open>ExpectType\<close>.
\<close>

theorem expansion_skips_null_input:
  "(IsNull (row ! input_symbol (ex_self c)) \<longrightarrow>
      InitEdges g (c\<lparr> ex_input_cursor := row # rest \<rparr>) frame =
      InitEdges g (c\<lparr> ex_input_cursor := rest \<rparr>) row) \<and>
   ((\<forall>r \<in> set rows. IsNull (r ! input_symbol (ex_self c))) \<longrightarrow>
      InitEdges g (c\<lparr> ex_input_cursor := rows \<rparr>) frame =
        Inr (False, last (frame # rows), c\<lparr> ex_input_cursor := [] \<rparr>)) \<and>
   (\<not> IsNull (row ! input_symbol (ex_self c)) \<and>
    type_of (row ! input_symbol (ex_self c)) \<noteq> TVertex \<longrightarrow>
      InitEdges g (c\<lparr> ex_input_cursor := row # rest \<rparr>) frame =
        Inl (QueryRuntimeException ''Expected a {} for '{}', but got {}.'')) \<and>
   (IsNull (row ! input_symbol (ev_self d)) \<longrightarrow>
      PullInput g (d\<lparr> ev_input_cursor := row # rest \<rparr>) frame =
      PullInput g (d\<lparr> ev_input_cursor := rest \<rparr>) row) \<and>
   ((\<forall>r \<in> set rows. IsNull (r ! input_symbol (ev_self d))) \<longrightarrow>
      PullInput g (d\<lparr> ev_input_cursor := rows \<rparr>) frame =
        Inr (False, last (frame # rows), d\<lparr> ev_input_cursor := [] \<rparr>)) \<and>
   (\<not> IsNull (row ! input_symbol (ev_self d)) \<and>
    type_of (row ! input_symbol (ev_self d)) \<noteq> TVertex \<longrightarrow>
      PullInput g (d\<lparr> ev_input_cursor := row # rest \<rparr>) frame =
        Inl (QueryRuntimeException ''Expected a {} for '{}', but got {}.'')) \<and>
   (ev_edges d = [] \<and> IsNull (row ! input_symbol (ev_self d)) \<longrightarrow>
      ExpandVariableCursor_Pull n g (d\<lparr> ev_input_cursor := row # rest \<rparr>) frame =
      ExpandVariableCursor_Pull n g (d\<lparr> ev_input_cursor := rest \<rparr>) row)"
proof (intro conjI impI)
  assume "IsNull (row ! input_symbol (ex_self c))"
  then show "InitEdges g (c\<lparr> ex_input_cursor := row # rest \<rparr>) frame =
      InitEdges g (c\<lparr> ex_input_cursor := rest \<rparr>) row"
    by (simp add: InitEdges_def InitEdges_loop_input)
next
  assume "\<forall>r \<in> set rows. IsNull (r ! input_symbol (ex_self c))"
  then show "InitEdges g (c\<lparr> ex_input_cursor := rows \<rparr>) frame =
        Inr (False, last (frame # rows), c\<lparr> ex_input_cursor := [] \<rparr>)"
    using InitEdges_loop_nulls[of rows c g frame]
    by (simp add: InitEdges_def InitEdges_loop_input)
next
  assume "\<not> IsNull (row ! input_symbol (ex_self c)) \<and>
    type_of (row ! input_symbol (ex_self c)) \<noteq> TVertex"
  then show "InitEdges g (c\<lparr> ex_input_cursor := row # rest \<rparr>) frame =
        Inl (QueryRuntimeException ''Expected a {} for '{}', but got {}.'')"
    using InitEdges_loop_not_vertex[of row c g rest frame]
    by (simp add: InitEdges_def InitEdges_loop_input del: InitEdges_loop.simps)
next
  assume "IsNull (row ! input_symbol (ev_self d))"
  then show "PullInput g (d\<lparr> ev_input_cursor := row # rest \<rparr>) frame =
      PullInput g (d\<lparr> ev_input_cursor := rest \<rparr>) row"
    by (simp add: PullInput_def PullInput_loop_input)
next
  assume "\<forall>r \<in> set rows. IsNull (r ! input_symbol (ev_self d))"
  then show "PullInput g (d\<lparr> ev_input_cursor := rows \<rparr>) frame =
        Inr (False, last (frame # rows), d\<lparr> ev_input_cursor := [] \<rparr>)"
    using PullInput_loop_nulls[of rows d g frame]
    by (simp add: PullInput_def PullInput_loop_input)
next
  assume "\<not> IsNull (row ! input_symbol (ev_self d)) \<and>
    type_of (row ! input_symbol (ev_self d)) \<noteq> TVertex"
  then show "PullInput g (d\<lparr> ev_input_cursor := row # rest \<rparr>) frame =
        Inl (QueryRuntimeException ''Expected a {} for '{}', but got {}.'')"
    using PullInput_loop_not_vertex[of row d g rest frame]
    by (simp add: PullInput_def PullInput_loop_input del: PullInput_loop.simps)
next
  assume "ev_edges d = [] \<and> IsNull (row ! input_symbol (ev_self d))"
  then show "ExpandVariableCursor_Pull n g (d\<lparr> ev_input_cursor := row # rest \<rparr>) frame =
      ExpandVariableCursor_Pull n g (d\<lparr> ev_input_cursor := rest \<rparr>) row"
    by (simp add: Pull_skips_null)
qed

text \<open>
  The theorem on the sample expansion over a row whose input symbol is null followed by the
  sample row: the pull produces the first path from the sample row.  Over the null row alone the
  pull reports exhaustion, and over a row with an integer at the input symbol it raises.
\<close>

theorem expansion_skips_null_input_witness:
  "IsNull ([Null, Null, Null, Null, Null] ! input_symbol (sample_expansion 1 5)) \<and>
   (case ExpandVariableCursor_Pull 9 sample_graph
           (MakeExpandVariableCursor (sample_expansion 1 5)
              [[Null, Null, Null, Null, Null], sample_row]) [] of
      Some (Inr (b, frame', c')) \<Rightarrow> b \<and> frame' ! 2 = ListV [EdgeV sample_edge_1]
    | _ \<Rightarrow> False) \<and>
   PullInput sample_graph
     (MakeExpandVariableCursor (sample_expansion 1 5) [[Null, Null, Null, Null, Null]]) [] =
     Inr (False, [Null, Null, Null, Null, Null],
          MakeExpandVariableCursor (sample_expansion 1 5) []) \<and>
   PullInput sample_graph
     (MakeExpandVariableCursor (sample_expansion 1 5) [[IntV 3, Null, Null, Null, Null]]) [] =
     Inl (QueryRuntimeException ''Expected a {} for '{}', but got {}.'')"
proof -
  let ?null = "[Null, Null, Null, Null, Null]"
  let ?d = "MakeExpandVariableCursor (sample_expansion 1 5) []"
  have n: "IsNull (?null ! input_symbol (ev_self ?d))"
    by (simp add: IsNull_def sample_expansion_def MakeExpandVariableCursor_def)
  have e: "ev_edges ?d = []" by (simp add: MakeExpandVariableCursor_def)
  have u: "\<And>rows. ?d\<lparr> ev_input_cursor := rows \<rparr> =
             MakeExpandVariableCursor (sample_expansion 1 5) rows"
    by (simp add: MakeExpandVariableCursor_def)
  have i: "\<not> IsNull ([IntV 3, Null, Null, Null, Null] ! input_symbol (ev_self ?d)) \<and>
           type_of ([IntV 3, Null, Null, Null, Null] ! input_symbol (ev_self ?d)) \<noteq> TVertex"
    by (simp add: IsNull_def sample_expansion_def MakeExpandVariableCursor_def)
  note t = expansion_skips_null_input[where d = ?d and g = sample_graph and frame = "[]",
      unfolded u]
  have skip: "ExpandVariableCursor_Pull 9 sample_graph
        (MakeExpandVariableCursor (sample_expansion 1 5) [?null, sample_row]) [] =
      ExpandVariableCursor_Pull 9 sample_graph
        (MakeExpandVariableCursor (sample_expansion 1 5) [sample_row]) ?null"
    using t[where row = ?null and rest = "[sample_row]" and n = 9] n e by blast
  have run: "(case ExpandVariableCursor_Pull 9 sample_graph
           (MakeExpandVariableCursor (sample_expansion 1 5) [sample_row]) ?null of
      Some (Inr (b, frame', c')) \<Rightarrow> b \<and> frame' ! 2 = ListV [EdgeV sample_edge_1]
    | _ \<Rightarrow> False)"
    by code_simp
  have nulls: "PullInput sample_graph
     (MakeExpandVariableCursor (sample_expansion 1 5) [?null]) [] =
     Inr (False, ?null, MakeExpandVariableCursor (sample_expansion 1 5) [])"
    using t[where rows = "[?null]"] n by simp
  have bad: "PullInput sample_graph
     (MakeExpandVariableCursor (sample_expansion 1 5) [[IntV 3, Null, Null, Null, Null]]) [] =
     Inl (QueryRuntimeException ''Expected a {} for '{}', but got {}.'')"
    using t[where row = "[IntV 3, Null, Null, Null, Null]" and rest = "[]"] i by blast
  from n skip run nulls bad show ?thesis
    by (simp add: MakeExpandVariableCursor_def)
qed






















section \<open>Properties of Distinct\<close>

lemma Distinct_Pull_skip:
  "seen ops (dist_seen_rows c) (projection (dist_value_symbols c) input_row) \<Longrightarrow>
   dist_input_cursor c = input_row # rest \<Longrightarrow>
     DistinctCursor_Pull ops c frame =
     DistinctCursor_Pull ops (c\<lparr> dist_input_cursor := rest \<rparr>) input_row"
  by (simp add: DistinctCursor_Pull.simps[of ops c])

lemma Distinct_Pull_keep:
  "\<not> seen ops (dist_seen_rows c) (projection (dist_value_symbols c) input_row) \<Longrightarrow>
   dist_input_cursor c = input_row # rest \<Longrightarrow>
     DistinctCursor_Pull ops c frame =
     Inr (True, input_row,
          c\<lparr> dist_input_cursor := rest,
             dist_seen_rows := dist_seen_rows c @ [projection (dist_value_symbols c) input_row] \<rparr>)"
  by (simp add: DistinctCursor_Pull.simps[of ops c])

lemma Distinct_rows_kept:
  "DistinctCursor_rows ops c frame =
     kept_rows ops (dist_value_symbols c) (dist_seen_rows c) (dist_input_cursor c)"
proof (induction "dist_input_cursor c" arbitrary: c frame)
  case Nil
  then have "dist_input_cursor c = []" by simp
  then show ?case
    by (simp add: DistinctCursor_rows.simps[of ops c] DistinctCursor_Pull.simps[of ops c])
next
  case (Cons input_row rest)
  then have inp: "dist_input_cursor c = input_row # rest" by simp
  show ?case
  proof (cases "seen ops (dist_seen_rows c) (projection (dist_value_symbols c) input_row)")
    case True
    let ?c1 = "c\<lparr> dist_input_cursor := rest \<rparr>"
    have "DistinctCursor_rows ops c frame = DistinctCursor_rows ops ?c1 input_row"
      by (simp add: DistinctCursor_rows.simps[of ops c] DistinctCursor_rows.simps[of ops ?c1]
          Distinct_Pull_skip[OF True inp])
    also have "\<dots> = kept_rows ops (dist_value_symbols ?c1) (dist_seen_rows ?c1)
                        (dist_input_cursor ?c1)"
      by (rule Cons.hyps(1)) simp
    finally show ?thesis using True inp by simp
  next
    case False
    let ?c1 = "c\<lparr> dist_input_cursor := rest,
                  dist_seen_rows := dist_seen_rows c @
                    [projection (dist_value_symbols c) input_row] \<rparr>"
    have "DistinctCursor_rows ops c frame = input_row # DistinctCursor_rows ops ?c1 input_row"
      by (simp add: DistinctCursor_rows.simps[of ops c] Distinct_Pull_keep[OF False inp])
    also have "DistinctCursor_rows ops ?c1 input_row =
       kept_rows ops (dist_value_symbols ?c1) (dist_seen_rows ?c1) (dist_input_cursor ?c1)"
      by (rule Cons.hyps(1)) simp
    finally show ?thesis using False inp by simp
  qed
qed

lemma kept_rows_not_seen:
  "row \<in> set (kept_rows ops symbols seen_rows inp) \<Longrightarrow>
     \<not> seen ops seen_rows (projection symbols row)"
proof (induction inp arbitrary: seen_rows)
  case Nil
  then show ?case by simp
next
  case (Cons input_row rest)
  show ?case
  proof (cases "seen ops seen_rows (projection symbols input_row)")
    case True
    with Cons show ?thesis by simp
  next
    case False
    with Cons.prems have "row = input_row \<or>
        row \<in> set (kept_rows ops symbols (seen_rows @ [projection symbols input_row]) rest)"
      by simp
    then show ?thesis
    proof
      assume "row = input_row" with False show ?thesis by simp
    next
      assume "row \<in> set (kept_rows ops symbols (seen_rows @ [projection symbols input_row]) rest)"
      from Cons.IH[OF this] show ?thesis by (auto simp: seen_def)
    qed
  qed
qed

lemma kept_rows_idem:
  "kept_rows ops symbols seen_rows (kept_rows ops symbols seen_rows inp) =
   kept_rows ops symbols seen_rows inp"
  by (induction inp arbitrary: seen_rows) auto

lemma kept_rows_no_later_equal:
  "no_later_equal ops symbols (kept_rows ops symbols seen_rows inp)"
proof (induction inp arbitrary: seen_rows)
  case Nil
  then show ?case by simp
next
  case (Cons input_row rest)
  show ?case
  proof (cases "seen ops seen_rows (projection symbols input_row)")
    case True
    with Cons show ?thesis by simp
  next
    case False
    let ?seen' = "seen_rows @ [projection symbols input_row]"
    have "\<forall>later \<in> set (kept_rows ops symbols ?seen' rest).
            \<not> TypedValueVectorEqual ops (projection symbols input_row) (projection symbols later)"
      using kept_rows_not_seen[of _ ops symbols ?seen' rest] by (auto simp: seen_def)
    with False Cons.IH[of ?seen'] show ?thesis by (simp add: list_all_iff)
  qed
qed

lemma TypedValueVectorEqual_refl:
  "\<forall>v. BoolEqual ops v v \<Longrightarrow> TypedValueVectorEqual ops row row"
  by (induction row) auto

lemma kept_rows_cover:
  assumes "\<forall>v. BoolEqual ops v v"
  shows "row \<in> set inp \<Longrightarrow>
     seen ops seen_rows (projection symbols row) \<or>
     (\<exists>kept \<in> set (kept_rows ops symbols seen_rows inp).
        TypedValueVectorEqual ops (projection symbols kept) (projection symbols row))"
proof (induction inp arbitrary: seen_rows)
  case Nil
  then show ?case by simp
next
  case (Cons input_row rest)
  let ?seen' = "seen_rows @ [projection symbols input_row]"
  show ?case
  proof (cases "seen ops seen_rows (projection symbols input_row)")
    case True
    show ?thesis
    proof (cases "row = input_row")
      case True
      with \<open>seen ops seen_rows (projection symbols input_row)\<close> show ?thesis by simp
    next
      case False
      with Cons.prems have "row \<in> set rest" by simp
      from Cons.IH[OF this, of seen_rows] True show ?thesis by simp
    qed
  next
    case False
    show ?thesis
    proof (cases "row = input_row")
      case True
      with False TypedValueVectorEqual_refl[OF assms, of "projection symbols input_row"]
      show ?thesis by auto
    next
      case neq: False
      with Cons.prems have "row \<in> set rest" by simp
      from Cons.IH[OF this, of ?seen'] False show ?thesis by (auto simp: seen_def)
    qed
  qed
qed

text \<open>
  C8.  The rows of all pulls of a Distinct cursor over the input rows \<open>inp\<close>.  A second
  Distinct over the same symbols, whose input produces exactly these rows, produces them again,
  in the same order, so in particular the same multiset of projections.  No row of the output
  is equal, on the symbols, to a later row of the output; and when \<^verbatim>\<open>BoolEqual\<close> is
  reflexive every input row is equal, on the symbols, to a row of the output.
\<close>

theorem Distinct_idempotent:
  "DistinctCursor_rows ops
     (MakeDistinctCursor symbols
        (DistinctCursor_rows ops (MakeDistinctCursor symbols inp) frame)) frame' =
   DistinctCursor_rows ops (MakeDistinctCursor symbols inp) frame \<and>
   no_later_equal ops symbols (DistinctCursor_rows ops (MakeDistinctCursor symbols inp) frame) \<and>
   ((\<forall>v. BoolEqual ops v v) \<longrightarrow>
      (\<forall>row \<in> set inp.
         \<exists>kept \<in> set (DistinctCursor_rows ops (MakeDistinctCursor symbols inp) frame).
           TypedValueVectorEqual ops (projection symbols kept) (projection symbols row)))"
proof (intro conjI impI ballI)
  show "DistinctCursor_rows ops
     (MakeDistinctCursor symbols
        (DistinctCursor_rows ops (MakeDistinctCursor symbols inp) frame)) frame' =
   DistinctCursor_rows ops (MakeDistinctCursor symbols inp) frame"
    by (simp add: Distinct_rows_kept MakeDistinctCursor_def kept_rows_idem)
next
  show "no_later_equal ops symbols
          (DistinctCursor_rows ops (MakeDistinctCursor symbols inp) frame)"
    by (simp add: Distinct_rows_kept MakeDistinctCursor_def kept_rows_no_later_equal)
next
  fix row
  assume refl: "\<forall>v. BoolEqual ops v v" and row: "row \<in> set inp"
  from kept_rows_cover[OF refl row, of "[]" symbols]
  show "\<exists>kept \<in> set (DistinctCursor_rows ops (MakeDistinctCursor symbols inp) frame).
           TypedValueVectorEqual ops (projection symbols kept) (projection symbols row)"
    by (simp add: Distinct_rows_kept MakeDistinctCursor_def seen_def)
qed

text \<open>
  The theorem for equality of values as \<^verbatim>\<open>BoolEqual\<close>, on the symbol 0 and five input
  rows with the values 1, null, 1, null, 2: the output has the values 1, null, 2, and a second
  Distinct keeps all three.
\<close>

theorem Distinct_idempotent_witness:
  "DistinctCursor_rows int_ops
     (MakeDistinctCursor [0] [[IntV 1, IntV 7], [Null, IntV 7], [IntV 1, IntV 8],
        [Null, IntV 8], [IntV 2, IntV 7]]) [] =
     [[IntV 1, IntV 7], [Null, IntV 7], [IntV 2, IntV 7]] \<and>
   DistinctCursor_rows int_ops
     (MakeDistinctCursor [0] [[IntV 1, IntV 7], [Null, IntV 7], [IntV 2, IntV 7]]) [] =
     [[IntV 1, IntV 7], [Null, IntV 7], [IntV 2, IntV 7]] \<and>
   (\<exists>kept \<in> set [[IntV 1, IntV 7], [Null, IntV 7], [IntV 2, IntV 7]].
      TypedValueVectorEqual int_ops (projection [0] kept) (projection [0] [Null, IntV 8]))"
proof -
  let ?inp = "[[IntV 1, IntV 7], [Null, IntV 7], [IntV 1, IntV 8], [Null, IntV 8],
               [IntV 2, IntV 7]]"
  let ?out = "[[IntV 1, IntV 7], [Null, IntV 7], [IntV 2, IntV 7]]"
  have rows: "DistinctCursor_rows int_ops (MakeDistinctCursor [0] ?inp) [] = ?out"
    by (simp add: Distinct_rows_kept MakeDistinctCursor_def seen_def projection_def int_ops_def)
  have refl: "\<forall>v. BoolEqual int_ops v v" by (simp add: int_ops_def)
  have mem: "[Null, IntV 8] \<in> set ?inp" by simp
  note t = Distinct_idempotent[of int_ops "[0]" ?inp "[]" "[]", unfolded rows]
  from t have again: "DistinctCursor_rows int_ops (MakeDistinctCursor [0] ?out) [] = ?out"
    by (rule conjunct1)
  from t refl mem have "\<exists>kept \<in> set ?out.
      TypedValueVectorEqual int_ops (projection [0] kept) (projection [0] [Null, IntV 8])"
    by blast
  with rows again show ?thesis by blast
qed


section \<open>Properties of Merge\<close>

lemma Merge_result_False:
  "MergeCursor_Pull c frame = Inr (False, frame', c') \<Longrightarrow>
     Merge_result c frame = ([], merge_create_pulled c')"
  by (simp add: Merge_result_def MergeCursor_run.simps[of c])

lemma Merge_result_True:
  "MergeCursor_Pull c frame = Inr (True, frame', c') \<Longrightarrow>
     Merge_result c frame =
       (frame' # fst (Merge_result c' frame'), snd (Merge_result c' frame'))"
  by (simp add: Merge_result_def MergeCursor_run.simps[of c] split: prod.splits)

lemma Merge_result_same_Pull:
  "MergeCursor_Pull c frame = MergeCursor_Pull c1 frame1 \<Longrightarrow>
   merge_create_pulled c = merge_create_pulled c1 \<Longrightarrow>
     Merge_result c frame = Merge_result c1 frame1"
  by (simp add: Merge_result_def MergeCursor_run.simps[of c] MergeCursor_run.simps[of c1]
      split: sum.splits prod.splits bool.splits)

lemma Merge_result_expected:
  "merge_input_cursor c = inp \<Longrightarrow> Merge_result c frame = Merge_expected c frame"
proof (induction inp arbitrary: c frame)
  case Nil
  have pull: "\<And>c frame. merge_input_cursor c = [] \<Longrightarrow> merge_pull_input c \<Longrightarrow>
     Merge_result c frame = Merge_expected c frame"
    by (simp add: Merge_result_False[OF Merge_Pull_input_empty] Merge_expected_def)
  show ?case
  proof (cases "merge_pull_input c")
    case True
    with Nil pull show ?thesis by simp
  next
    case False
    from Nil False show ?thesis
    proof (induction "pending (merge_match_cursor c) frame" arbitrary: c frame)
      case Nil
      let ?c1 = "c\<lparr> merge_match_cursor := (merge_match_cursor c)\<lparr> pc_rows := Some [] \<rparr>,
                    merge_pull_input := True \<rparr>"
      from Nil have "Merge_result c frame = Merge_result ?c1 frame"
        by (intro Merge_result_same_Pull) (simp_all add: Merge_Pull_match_done)
      also have "\<dots> = Merge_expected ?c1 frame" using Nil by (intro pull) simp_all
      also have "\<dots> = Merge_expected c frame"
        using Nil by (simp add: Merge_expected_def)
      finally show ?case .
    next
      case (Cons m ms)
      let ?c1 = "c\<lparr> merge_match_cursor := (merge_match_cursor c)\<lparr> pc_rows := Some ms \<rparr>,
                    merge_pull_input := False \<rparr>"
      from Cons have p: "MergeCursor_Pull c frame = Inr (True, m, ?c1)"
        by (simp add: Merge_Pull_match_row)
      have "Merge_result ?c1 m = Merge_expected ?c1 m"
        by (rule Cons.hyps(1)) (use Cons.prems in \<open>simp_all add: pending_def\<close>)
      with Merge_result_True[OF p] Cons show ?case
        by (simp add: Merge_expected_def pending_def)
    qed
  qed
next
  case (Cons row rest)
  have pull: "\<And>c frame. merge_input_cursor c = row # rest \<Longrightarrow> merge_pull_input c \<Longrightarrow>
     Merge_result c frame = Merge_expected c frame"
  proof -
    fix c :: MergeCursor and frame :: frame
    assume inp: "merge_input_cursor c = row # rest" and flag: "merge_pull_input c"
    show "Merge_result c frame = Merge_expected c frame"
    proof (cases "pc_plan (merge_match_cursor c) row")
      case Nil
      let ?c1 = "c\<lparr> merge_input_cursor := rest,
                  merge_match_cursor := (merge_match_cursor c)\<lparr> pc_rows := Some [] \<rparr>,
                  merge_create_cursor := (merge_create_cursor c)
                     \<lparr> pc_rows := Some (tl (pc_plan (merge_create_cursor c) row)) \<rparr>,
                  merge_create_pulled := merge_create_pulled c @ [row] \<rparr>"
      let ?out = "case pc_plan (merge_create_cursor c) row of [] \<Rightarrow> row | x # xs \<Rightarrow> x"
      from Nil flag inp have p: "MergeCursor_Pull c frame = Inr (True, ?out, ?c1)"
        by (simp add: Merge_Pull_input_row)
      have "Merge_result ?c1 ?out = Merge_expected ?c1 ?out"
        by (rule Cons.IH) simp
      with Merge_result_True[OF p] Nil flag inp show ?thesis
        by (simp add: Merge_expected_def Merge_row_output_def)
    next
      case (Cons m ms)
      let ?c1 = "c\<lparr> merge_input_cursor := rest,
                  merge_match_cursor := (merge_match_cursor c)\<lparr> pc_rows := Some ms \<rparr>,
                  merge_create_cursor := plan_Reset (merge_create_cursor c),
                  merge_pull_input := False \<rparr>"
      from Cons flag inp have p: "MergeCursor_Pull c frame = Inr (True, m, ?c1)"
        by (simp add: Merge_Pull_input_row)
      have "Merge_result ?c1 m = Merge_expected ?c1 m"
        by (rule Cons.IH) simp
      with Merge_result_True[OF p] Cons flag inp show ?thesis
        by (simp add: Merge_expected_def Merge_row_output_def pending_def plan_Reset_def)
    qed
  qed
  show ?case
  proof (cases "merge_pull_input c")
    case True
    with Cons.prems pull show ?thesis by simp
  next
    case False
    from Cons.prems False show ?thesis
    proof (induction "pending (merge_match_cursor c) frame" arbitrary: c frame)
      case Nil
      let ?c1 = "c\<lparr> merge_match_cursor := (merge_match_cursor c)\<lparr> pc_rows := Some [] \<rparr>,
                    merge_pull_input := True \<rparr>"
      from Nil have "Merge_result c frame = Merge_result ?c1 frame"
        by (intro Merge_result_same_Pull) (simp_all add: Merge_Pull_match_done)
      also have "\<dots> = Merge_expected ?c1 frame" using Nil by (intro pull) simp_all
      also have "\<dots> = Merge_expected c frame"
        using Nil by (simp add: Merge_expected_def)
      finally show ?case .
    next
      case (Cons m ms)
      let ?c1 = "c\<lparr> merge_match_cursor := (merge_match_cursor c)\<lparr> pc_rows := Some ms \<rparr>,
                    merge_pull_input := False \<rparr>"
      from Cons have p: "MergeCursor_Pull c frame = Inr (True, m, ?c1)"
        by (simp add: Merge_Pull_match_row)
      have "Merge_result ?c1 m = Merge_expected ?c1 m"
        by (rule Cons.hyps(1)) (use Cons.prems in \<open>simp_all add: pending_def\<close>)
      with Merge_result_True[OF p] Cons show ?case
        by (simp add: Merge_expected_def pending_def)
    qed
  qed
qed

text \<open>
  C6.  The run of a fresh Merge cursor over the input rows \<open>inp\<close>.  Its rows are, input
  row by input row, the rows of the match plan when there are any and otherwise one row, the
  first row of the create plan; so every input row contributes at least one row.  The create
  cursor has been pulled once for every input row without a match, in the order of the input,
  and for no other row.
\<close>

theorem Merge_rows:
  "fst (MergeCursor_run (MakeMergeCursor inp merge_match merge_create) frame) =
     concat (map (Merge_row_output merge_match merge_create) inp) \<and>
   merge_create_pulled (snd (MergeCursor_run (MakeMergeCursor inp merge_match merge_create) frame)) =
     filter (\<lambda>row. merge_match row = []) inp \<and>
   (\<forall>row. Merge_row_output merge_match merge_create row \<noteq> []) \<and>
   (\<forall>row. merge_match row \<noteq> [] \<longrightarrow>
      Merge_row_output merge_match merge_create row = merge_match row) \<and>
   (\<forall>row created others. merge_match row = [] \<and> merge_create row = created # others \<longrightarrow>
      Merge_row_output merge_match merge_create row = [created])"
proof -
  let ?c = "MakeMergeCursor inp merge_match merge_create"
  have "Merge_result ?c frame = Merge_expected ?c frame"
    by (rule Merge_result_expected) (simp add: MakeMergeCursor_def)
  then have "fst (MergeCursor_run ?c frame) =
               concat (map (Merge_row_output merge_match merge_create) inp) \<and>
             merge_create_pulled (snd (MergeCursor_run ?c frame)) =
               filter (\<lambda>row. merge_match row = []) inp"
    by (simp add: Merge_result_def Merge_expected_def MakeMergeCursor_def MakePlanCursor_def)
  moreover have "\<forall>row. Merge_row_output merge_match merge_create row \<noteq> []"
    by (simp add: Merge_row_output_def split: list.splits)
  moreover have "\<forall>row. merge_match row \<noteq> [] \<longrightarrow>
      Merge_row_output merge_match merge_create row = merge_match row"
    by (simp add: Merge_row_output_def split: list.splits)
  moreover have "\<forall>row created others.
      merge_match row = [] \<and> merge_create row = created # others \<longrightarrow>
      Merge_row_output merge_match merge_create row = [created]"
    by (simp add: Merge_row_output_def)
  ultimately show ?thesis by blast
qed

text \<open>
  The theorem on two input rows: the match plan produces two rows over the first and none over
  the second, the create plan produces one row.
\<close>

theorem Merge_rows_witness:
  "fst (MergeCursor_run
          (MakeMergeCursor [[IntV 1], [IntV 2]]
             (\<lambda>frame. if frame = [IntV 1] then [[IntV 10], [IntV 11]] else [])
             (\<lambda>frame. [[IntV 99]])) [Null]) =
     [[IntV 10], [IntV 11], [IntV 99]] \<and>
   merge_create_pulled
     (snd (MergeCursor_run
          (MakeMergeCursor [[IntV 1], [IntV 2]]
             (\<lambda>frame. if frame = [IntV 1] then [[IntV 10], [IntV 11]] else [])
             (\<lambda>frame. [[IntV 99]])) [Null])) = [[IntV 2]]"
  using Merge_rows[of "[[IntV 1], [IntV 2]]"
      "\<lambda>frame. if frame = [IntV 1] then [[IntV 10], [IntV 11]] else []"
      "\<lambda>frame. [[IntV 99]]" "[Null]"]
  by (simp add: Merge_row_output_def)


section \<open>Properties of Accumulate and Synchronize\<close>
















section \<open>Properties of exhausted cursors\<close>


























text \<open>
  C3 at the scans.  The cursor of the scan by property value over two input rows, the first with
  a value for which the index holds no vertex and the second with a value for which it holds
  one: the first pull reports exhaustion, and the pull after it produces the row of the second
  input row.  The cursor shared by the other scans does the same when the vertices depend on the
  frame, as they do for the property range.  Where the value is null the same cursor goes on to
  the next input row within the pull, and so does Unwind for an empty list: there the first pull
  produces the row.
\<close>

theorem ScanAll_pull_after_exhausted:
  "ScanAllByLabelPropertyValueCursor_Pull False sample_index
     (MakeScanAllByLabelPropertyValueCursor 1 (Identifier 0) [[IntV 1, Null], [IntV 2, Null]])
     [Null, Null] =
     Inr (False, [IntV 1, Null],
          \<lparr> scanv_output_symbol = 1, scanv_expression = Identifier 0,
            scanv_input_cursor = [[IntV 2, Null]], scanv_vertices = Some [] \<rparr>) \<and>
   ScanAllByLabelPropertyValueCursor_Pull False sample_index
     \<lparr> scanv_output_symbol = 1, scanv_expression = Identifier 0,
       scanv_input_cursor = [[IntV 2, Null]], scanv_vertices = Some [] \<rparr>
     [IntV 1, Null] =
     Inr (True, [IntV 2, VertexV (VertexAccessor 7)],
          \<lparr> scanv_output_symbol = 1, scanv_expression = Identifier 0,
            scanv_input_cursor = [], scanv_vertices = Some [] \<rparr>) \<and>
   ScanAllCursor_Pull False
     (MakeScanAllCursor 1 [[IntV 1, Null], [IntV 2, Null]] sample_range) [Null, Null] =
     Inr (False, [IntV 1, Null],
          \<lparr> scan_output_symbol = 1, scan_input_cursor = [[IntV 2, Null]],
            scan_get_vertices = sample_range, scan_vertices = Some [] \<rparr>) \<and>
   ScanAllCursor_Pull False
     \<lparr> scan_output_symbol = 1, scan_input_cursor = [[IntV 2, Null]],
       scan_get_vertices = sample_range, scan_vertices = Some [] \<rparr> [IntV 1, Null] =
     Inr (True, [IntV 2, VertexV (VertexAccessor 7)],
          \<lparr> scan_output_symbol = 1, scan_input_cursor = [],
            scan_get_vertices = sample_range, scan_vertices = Some [] \<rparr>) \<and>
   ScanAllByLabelPropertyValueCursor_Pull False sample_index
     (MakeScanAllByLabelPropertyValueCursor 1 (Identifier 0) [[Null, Null], [IntV 2, Null]])
     [Null, Null] =
     Inr (True, [IntV 2, VertexV (VertexAccessor 7)],
          \<lparr> scanv_output_symbol = 1, scanv_expression = Identifier 0,
            scanv_input_cursor = [], scanv_vertices = Some [] \<rparr>) \<and>
   UnwindCursor_Pull False
     (MakeUnwindCursor (Identifier 0) 1 [[ListV [], Null], [ListV [IntV 2], Null]])
     [Null, Null] =
     Inr (True, [ListV [IntV 2], IntV 2],
          \<lparr> unw_input_expression = Identifier 0, unw_output_symbol = 1,
            unw_input_cursor = [], unw_input_value = [] \<rparr>)"
  by (simp add: ScanAllByLabelPropertyValueCursor_Pull.simps
      MakeScanAllByLabelPropertyValueCursor_def ScanAllByLabelPropertyValue_produce_def
      ScanAllCursor_Pull_def MakeScanAllCursor_def ScanAll_produce_def
      UnwindCursor_Pull.simps MakeUnwindCursor_def
      Identifier_def sample_index_def sample_range_def IsNull_def)

end
